theory Spec2Isabelle
  imports Main "HOL-Library.Sublist"
begin

section \<open>Python strings\<close>

text \<open>
  A Python \<open>str\<close> is a sequence of Unicode code points; it is modelled as a list of
  natural numbers. Literals of the source are written \<open>ustr ''...''\<close>; the two quote
  characters, which cannot be written inside such a literal, are \<open>DQ\<close> (U+0022) and
  \<open>SQ\<close> (U+0027).
\<close>

type_synonym ustring = "nat list"

abbreviation ustr :: "string \<Rightarrow> ustring" where
  "ustr s \<equiv> map of_char s"

abbreviation DQ :: nat where "DQ \<equiv> 34"
abbreviation SQ :: nat where "SQ \<equiv> 39"

text \<open>
  The character classes of the source on ASCII text. \<open>is_space\<close> is \<open>str.isspace\<close>
  (and the class \<open>\s\<close> of \<open>re\<close>) below U+0080: tab, line feed, vertical tab, form feed,
  carriage return, the four separators U+001C to U+001F, and the space. \<open>is_word\<close> is the
  class \<open>\w\<close> below U+0080.
\<close>

definition is_space :: "nat \<Rightarrow> bool" where
  "is_space c \<longleftrightarrow> (9 \<le> c \<and> c \<le> 13) \<or> (28 \<le> c \<and> c \<le> 32)"

definition is_word :: "nat \<Rightarrow> bool" where
  "is_word c \<longleftrightarrow> (48 \<le> c \<and> c \<le> 57) \<or> (65 \<le> c \<and> c \<le> 90) \<or> c = 95 \<or> (97 \<le> c \<and> c \<le> 122)"

definition ascii_lower :: "nat \<Rightarrow> nat" where
  "ascii_lower c = (if 65 \<le> c \<and> c \<le> 90 then c + 32 else c)"

text \<open>\<open>s.strip()\<close>, for a given whitespace predicate.\<close>

definition py_strip :: "(nat \<Rightarrow> bool) \<Rightarrow> ustring \<Rightarrow> ustring" where
  "py_strip sp s = rev (dropWhile sp (rev (dropWhile sp s)))"

text \<open>
  \<open>s.split(sep)\<close> for a separator that is not empty: the text is scanned from the left,
  \<open>cur\<close> holds the segment read so far, and each occurrence of the separator closes a
  segment and is skipped. (Python raises \<open>ValueError\<close> for an empty separator; the
  source only splits on the constants \<open>"::"\<close> and \<open>","\<close>.)
\<close>

fun split_from :: "'a list \<Rightarrow> 'a list \<Rightarrow> 'a list \<Rightarrow> 'a list list" where
  "split_from sep cur [] = [cur]"
| "split_from sep cur (c # cs) =
     (if sep \<noteq> [] \<and> prefix sep (c # cs)
      then cur # split_from sep [] (drop (length sep - 1) cs)
      else split_from sep (cur @ [c]) cs)"

definition py_split :: "'a list \<Rightarrow> 'a list \<Rightarrow> 'a list list" where
  "py_split sep s = split_from sep [] s"

text \<open>\<open>sep.join(xs)\<close>.\<close>

fun py_join :: "'a list \<Rightarrow> 'a list list \<Rightarrow> 'a list" where
  "py_join sep [] = []"
| "py_join sep [x] = x"
| "py_join sep (x # y # ys) = x @ sep @ py_join sep (y # ys)"

text \<open>
  \<open>s.replace(old, new)\<close>: every occurrence of \<open>old\<close>, found from the left and not
  overlapping, is replaced. For an empty \<open>old\<close> Python puts \<open>new\<close> before every character
  and at the end.
\<close>

fun replace_from :: "'a list \<Rightarrow> 'a list \<Rightarrow> 'a list \<Rightarrow> 'a list" where
  "replace_from old new [] = []"
| "replace_from old new (c # cs) =
     (if prefix old (c # cs)
      then new @ replace_from old new (drop (length old - 1) cs)
      else c # replace_from old new cs)"

definition py_replace :: "'a list \<Rightarrow> 'a list \<Rightarrow> 'a list \<Rightarrow> 'a list" where
  "py_replace old new s =
     (if old = [] then new @ concat (map (\<lambda>c. c # new) s) else replace_from old new s)"

text \<open>A text contains \<open>sep\<close> when it can be cut around an occurrence of it.\<close>

definition occurs :: "'a list \<Rightarrow> 'a list \<Rightarrow> bool" where
  "occurs sep s \<longleftrightarrow> (\<exists>u v. s = u @ sep @ v)"

section \<open>The data of the host application and the world around the program\<close>

text \<open>
  A note as \<open>notesInfo\<close> returns it: a JSON object whose key \<open>"fields"\<close> holds the ordered
  mapping from field names to \<open>{"value": ...}\<close> and whose key \<open>"tags"\<close> holds the list of
  tags. A key is \<open>None\<close> when the object does not have it (AnkiConnect answers \<open>{}\<close> for a
  note it cannot find); reading it raises \<open>KeyError\<close>.
\<close>

record note_info =
  note_fields :: "(ustring \<times> ustring) list option"
  note_tags :: "ustring list option"

datatype request =
    DeckNames
  | FindNotes ustring
  | NotesInfo "nat list"
  | RetrieveMediaFile ustring

datatype exn = OSError | KeyError | UnicodeEncodeError | SystemExit nat

text \<open>
  The state the program reads and changes: the directories and the regular files of the
  filesystem, keyed by the path as the program writes it, and the log of the requests sent
  to the host so far (every call of \<open>urlopen\<close> is one entry, whatever its outcome).
\<close>

record world =
  dirs :: "ustring set"
  files :: "ustring \<rightharpoonup> nat list"
  calls :: "request list"

text \<open>
  Everything the program uses and the repository does not define:
  \<^item> library tables: \<open>unicodedata.normalize('NFKD', _)\<close>, \<open>html.unescape\<close>,
    \<open>base64.b64decode\<close> (\<open>None\<close> when it raises), and for code points from U+0080 on
    \<open>str.isspace\<close>, \<open>str.lower\<close>, the decimal digit value, the case-insensitive match of
    \<open>re.IGNORECASE\<close> against a lower-case ASCII letter of a pattern, and the limit of
    \<open>int\<close> on the number of digits (0 when there is none);
  \<^item> the host's answers, which may depend on the requests made before: \<open>None\<close> is a
    transport failure or an answer with an error; for a media file \<open>Some None\<close> is the
    result \<open>false\<close>;
  \<^item> the operating system's refusals, which may depend on the state of the world:
    creating a directory, opening a file for writing, and, of the bytes that are handed
    to it for a file, how many it stores (fewer than all of them when the write fails, as
    on a full disk or at a size limit: the bytes stored before the failure stay in the
    file);
  \<^item> the buffering of Python's text files: of the bytes that wait in the buffers of a
    text file after a \<open>write\<close>, how many are handed to the operating system by that
    \<open>write\<close>; the others wait for a later \<open>write\<close> or for the file to be closed.
\<close>

record env =
  nfkd :: "ustring \<Rightarrow> ustring"
  unescape :: "ustring \<Rightarrow> ustring"
  b64decode :: "ustring \<Rightarrow> nat list option"
  uni_space :: "nat \<Rightarrow> bool"
  uni_lower :: "ustring \<Rightarrow> ustring"
  uni_digit :: "nat \<Rightarrow> nat option"
  uni_icase :: "nat \<Rightarrow> nat \<Rightarrow> bool"
  max_str_digits :: nat
  host_decks :: "request list \<Rightarrow> ustring list option"
  host_find :: "request list \<Rightarrow> ustring \<Rightarrow> nat list option"
  host_notes :: "request list \<Rightarrow> nat list \<Rightarrow> note_info list option"
  host_media :: "request list \<Rightarrow> ustring \<Rightarrow> ustring option option"
  mkdir_fault :: "world \<Rightarrow> ustring \<Rightarrow> bool"
  open_fault :: "world \<Rightarrow> ustring \<Rightarrow> bool"
  os_store :: "world \<Rightarrow> ustring \<Rightarrow> nat list \<Rightarrow> nat"
  flush_now :: "nat list \<Rightarrow> nat"

subsection \<open>The filesystem\<close>

text \<open>\<open>os.path.join(a, b)\<close> of \<open>posixpath\<close>.\<close>

definition path_join :: "ustring \<Rightarrow> ustring \<Rightarrow> ustring" where
  "path_join a b =
     (if b \<noteq> [] \<and> hd b = 47 then b
      else if a = [] \<or> last a = 47 then a @ b
      else a @ [47] @ b)"

text \<open>The directories above a path: its prefixes that end before a slash.\<close>

definition path_ancestors :: "ustring \<Rightarrow> ustring list" where
  "path_ancestors p = map (\<lambda>i. take i p) (filter (\<lambda>i. p ! i = 47) [1..<length p])"

definition path_exists :: "world \<Rightarrow> ustring \<Rightarrow> bool" where
  "path_exists w p \<longleftrightarrow> p \<in> dirs w \<or> files w p \<noteq> None"

text \<open>
  \<open>os.makedirs(d, exist_ok=True)\<close>: nothing to do when the directory is there; \<open>OSError\<close>
  when a file has that name or the system refuses; otherwise the directory and the missing
  directories above it are created.
\<close>

definition makedirs :: "env \<Rightarrow> ustring \<Rightarrow> world \<Rightarrow> (exn + unit) \<times> world" where
  "makedirs env d w =
     (if d \<in> dirs w then (Inr (), w)
      else if files w d \<noteq> None \<or> mkdir_fault env w d then (Inl OSError, w)
      else (Inr (), w\<lparr>dirs := dirs w \<union> {d} \<union> set (path_ancestors d)\<rparr>))"

text \<open>\<open>open(p, 'w')\<close> and \<open>open(p, 'wb')\<close>: the file is created, or emptied when it is there.\<close>

definition open_w :: "env \<Rightarrow> ustring \<Rightarrow> world \<Rightarrow> (exn + unit) \<times> world" where
  "open_w env p w =
     (if p \<in> dirs w \<or> open_fault env w p then (Inl OSError, w)
      else (Inr (), w\<lparr>files := (files w)(p \<mapsto> [])\<rparr>))"

text \<open>
  Handing bytes to the operating system for the open file appends those that it stores.
  When it does not store them all the write raises \<open>OSError\<close>, and the file keeps the
  bytes stored until then: a file cut short, not the file as it was before. For the
  binary file of the Media Fetcher this is \<open>f.write(file_data)\<close> together with the close
  at the end of its \<open>with\<close> block, both inside the same \<open>try\<close>.
\<close>

definition write_bytes :: "env \<Rightarrow> ustring \<Rightarrow> nat list \<Rightarrow> world \<Rightarrow> (exn + unit) \<times> world" where
  "write_bytes env p bs w =
     (let stored = take (os_store env w p bs) bs;
          w1 = w\<lparr>files := (files w)(p \<mapsto> (case files w p of None \<Rightarrow> stored | Some old \<Rightarrow> old @ stored))\<rparr>
      in if os_store env w p bs < length bs then (Inl OSError, w1) else (Inr (), w1))"

subsection \<open>The text file: UTF-8 with a byte-order mark\<close>

definition utf8_char :: "nat \<Rightarrow> nat list option" where
  "utf8_char c =
     (if c < 128 then Some [c]
      else if c < 2048 then Some [192 + c div 64, 128 + c mod 64]
      else if 55296 \<le> c \<and> c \<le> 57343 then None
      else if c < 65536 then Some [224 + c div 4096, 128 + (c div 64) mod 64, 128 + c mod 64]
      else if c < 1114112 then
        Some [240 + c div 262144, 128 + (c div 4096) mod 64, 128 + (c div 64) mod 64, 128 + c mod 64]
      else None)"

fun utf8_encode :: "ustring \<Rightarrow> nat list option" where
  "utf8_encode [] = Some []"
| "utf8_encode (c # cs) =
     (case utf8_char c of
        None \<Rightarrow> None
      | Some b \<Rightarrow> (case utf8_encode cs of None \<Rightarrow> None | Some bs \<Rightarrow> Some (b @ bs)))"

definition BOM_UTF8 :: "nat list" where
  "BOM_UTF8 = [239, 187, 191]"

text \<open>
  One \<open>f.write(text)\<close> on a file opened with \<open>encoding="utf-8-sig"\<close>. The text is encoded
  at once: the encoder puts the byte-order mark before the first text it encodes
  (\<open>first\<close>), and raises \<open>UnicodeEncodeError\<close> on a surrogate code point. The bytes join
  those that wait in the buffers of the file (\<open>pending\<close>); the file hands the first
  \<open>flush_now\<close> of them to the operating system and keeps the others. So the \<open>OSError\<close> of
  a disk that is full shows at the \<open>write\<close> that empties the buffer, or when the file is
  closed, and not at the \<open>write\<close> of the row that did not fit; what the operating system
  did not store stays in the buffer. The result is the exception or nothing, the bytes
  that wait now, and the world.
\<close>

definition write_text ::
  "env \<Rightarrow> ustring \<Rightarrow> bool \<Rightarrow> nat list \<Rightarrow> ustring \<Rightarrow> world \<Rightarrow> (exn + unit) \<times> nat list \<times> world" where
  "write_text env p first pending text w =
     (case utf8_encode text of
        None \<Rightarrow> (Inl UnicodeEncodeError, pending, w)
      | Some bs \<Rightarrow>
          (let buffer = pending @ (if first then BOM_UTF8 else []) @ bs;
               handed = take (flush_now env buffer) buffer
           in case write_bytes env p handed w of
                (Inl e, w1) \<Rightarrow> (Inl e, drop (os_store env w p handed) buffer, w1)
              | (Inr u, w1) \<Rightarrow> (Inr (), drop (length handed) buffer, w1)))"

text \<open>Closing the text file hands every byte that waits to the operating system.\<close>

definition close_text :: "env \<Rightarrow> ustring \<Rightarrow> nat list \<Rightarrow> world \<Rightarrow> (exn + unit) \<times> world" where
  "close_text env p pending w = write_bytes env p pending w"

subsection \<open>\<open>csv.writer(f, delimiter=";", quoting=csv.QUOTE_MINIMAL)\<close>\<close>

text \<open>
  The writer of the standard library with the other settings of the \<open>excel\<close> dialect: a
  field is put in double quotes when it contains the delimiter, the quote character, a
  carriage return or a line feed, and a quote inside it is doubled; fields are joined by
  the delimiter; a row made of one empty field is written as two quotes; the row ends
  with carriage return and line feed.
\<close>

definition csv_needs_quotes :: "ustring \<Rightarrow> bool" where
  "csv_needs_quotes f \<longleftrightarrow> list_ex (\<lambda>c. c = 59 \<or> c = DQ \<or> c = 13 \<or> c = 10) f"

definition csv_field :: "ustring \<Rightarrow> ustring" where
  "csv_field f =
     (if csv_needs_quotes f
      then [DQ] @ concat (map (\<lambda>c. if c = DQ then [DQ, DQ] else [c]) f) @ [DQ]
      else f)"

definition csv_writerow :: "ustring list \<Rightarrow> ustring" where
  "csv_writerow row =
     (if row = [[]] then [DQ, DQ] else py_join [59] (map csv_field row)) @ [13, 10]"

subsection \<open>Requests to the host\<close>

text \<open>
  \<^verbatim>\<open>
  def request(action, **params):
      try:
          response = json.load(urllib.request.urlopen(...))
          if response.get("error") is not None:
              raise Exception(response["error"])
          return response
      except Exception as e:
          print(f"[ERREUR] AnkiConnect : {e}")
          return None
  \<close>
  One function for each action the program uses. \<open>anki_request\<close> of \<open>anki_companion.py\<close>
  raises where \<open>request\<close> returns \<open>None\<close>, and each of its callers catches the exception
  at the call: both are the result \<open>None\<close> here.
\<close>

definition request_deckNames :: "env \<Rightarrow> world \<Rightarrow> ustring list option \<times> world" where
  "request_deckNames env w = (host_decks env (calls w), w\<lparr>calls := calls w @ [DeckNames]\<rparr>)"

definition request_findNotes :: "env \<Rightarrow> ustring \<Rightarrow> world \<Rightarrow> nat list option \<times> world" where
  "request_findNotes env query w =
     (host_find env (calls w) query, w\<lparr>calls := calls w @ [FindNotes query]\<rparr>)"

definition request_notesInfo :: "env \<Rightarrow> nat list \<Rightarrow> world \<Rightarrow> note_info list option \<times> world" where
  "request_notesInfo env ids w =
     (host_notes env (calls w) ids, w\<lparr>calls := calls w @ [NotesInfo ids]\<rparr>)"

definition request_retrieveMediaFile ::
  "env \<Rightarrow> ustring \<Rightarrow> world \<Rightarrow> ustring option option \<times> world" where
  "request_retrieveMediaFile env filename w =
     (host_media env (calls w) filename, w\<lparr>calls := calls w @ [RetrieveMediaFile filename]\<rparr>)"

section \<open>Name Sanitizer: \<open>slugify\<close>\<close>

text \<open>
  \<^verbatim>\<open>
  def slugify(value):
      value = unicodedata.normalize('NFKD', value).encode('ascii', 'ignore').decode('ascii')
      value = re.sub(r'[^\w\s-]', '', value).strip().lower()
      return re.sub(r'[-\s]+', '_', value)
  \<close>
  The same function is defined in \<open>export_with_media.py\<close> and in \<open>anki_companion.py\<close>.
  Encoding to ASCII with \<open>'ignore'\<close> drops every code point from U+0080 on, so the two
  regular expressions, \<open>strip\<close> and \<open>lower\<close> only ever see ASCII text.
\<close>

definition encode_ascii_ignore :: "ustring \<Rightarrow> ustring" where
  "encode_ascii_ignore s = filter (\<lambda>c. c < 128) s"

text \<open>\<open>re.sub(r'[^\w\s-]', '', value)\<close>: keep word characters, whitespace and the hyphen.\<close>

definition slug_keep :: "nat \<Rightarrow> bool" where
  "slug_keep c \<longleftrightarrow> is_word c \<or> is_space c \<or> c = 45"

definition is_dash_space :: "nat \<Rightarrow> bool" where
  "is_dash_space c \<longleftrightarrow> c = 45 \<or> is_space c"

text \<open>\<open>re.sub(r'[-\s]+', '_', value)\<close>: every maximal run of hyphens and whitespace becomes
  one underscore.\<close>

function sub_runs :: "ustring \<Rightarrow> ustring" where
  "sub_runs [] = []"
| "sub_runs (c # cs) =
     (if is_dash_space c then 95 # sub_runs (dropWhile is_dash_space cs)
      else c # sub_runs cs)"
  by pat_completeness auto
termination
  by (relation "measure length") (auto simp: less_Suc_eq_le length_dropWhile_le)

definition slugify :: "env \<Rightarrow> ustring \<Rightarrow> ustring" where
  "slugify env value =
     (let value1 = encode_ascii_ignore (nfkd env value);
          value2 = map ascii_lower (py_strip is_space (filter slug_keep value1))
      in sub_runs value2)"

text \<open>The characters a token can contain: digits, the underscore and lower-case letters.\<close>

definition is_slug_char :: "nat \<Rightarrow> bool" where
  "is_slug_char c \<longleftrightarrow> (48 \<le> c \<and> c \<le> 57) \<or> c = 95 \<or> (97 \<le> c \<and> c \<le> 122)"

text \<open>
  The one fact about the normaliser that the results below rely on: NFKD leaves ASCII
  text as it is (no ASCII character has a decomposition, and none is a combining mark).
\<close>

definition nfkd_fixes_ascii :: "env \<Rightarrow> bool" where
  "nfkd_fixes_ascii env \<longleftrightarrow> (\<forall>s. list_all (\<lambda>c. c < 128) s \<longrightarrow> nfkd env s = s)"

section \<open>Media Fetcher: \<open>retrieve_media_from_anki\<close>\<close>

text \<open>
  \<^verbatim>\<open>
  def retrieve_media_from_anki(filename, media_subfolder, media_base_dir):
      target_dir = os.path.join(media_base_dir, media_subfolder)
      os.makedirs(target_dir, exist_ok=True)
      target_path = os.path.join(target_dir, filename)
      if os.path.exists(target_path):
          return True
      response = request("retrieveMediaFile", filename=filename)
      if not response or not response.get("result"):
          return False
      try:
          file_data = base64.b64decode(response["result"])
          with open(target_path, 'wb') as f:
              f.write(file_data)
          return True
      except Exception as e:
          return False
  \<close>
  \<open>os.makedirs\<close> is outside the \<open>try\<close>: its \<open>OSError\<close> leaves the function. An empty
  string as result is as false as \<open>false\<close>. The function of \<open>anki_companion.py\<close> differs
  only in catching the exception of \<open>anki_request\<close> where this one tests for \<open>None\<close>, and
  in printing nothing.
\<close>

definition retrieve_media_from_anki ::
  "env \<Rightarrow> ustring \<Rightarrow> ustring \<Rightarrow> ustring \<Rightarrow> world \<Rightarrow> (exn + bool) \<times> world" where
  "retrieve_media_from_anki env filename media_subfolder media_base_dir w =
     (let target_dir = path_join media_base_dir media_subfolder in
      case makedirs env target_dir w of
        (Inl e, w1) \<Rightarrow> (Inl e, w1)
      | (Inr u, w1) \<Rightarrow>
          let target_path = path_join target_dir filename in
          if path_exists w1 target_path then (Inr True, w1)
          else
            (case request_retrieveMediaFile env filename w1 of
               (None, w2) \<Rightarrow> (Inr False, w2)
             | (Some None, w2) \<Rightarrow> (Inr False, w2)
             | (Some (Some result), w2) \<Rightarrow>
                 if result = [] then (Inr False, w2)
                 else
                   (case b64decode env result of
                      None \<Rightarrow> (Inr False, w2)
                    | Some file_data \<Rightarrow>
                        (case open_w env target_path w2 of
                           (Inl e, w3) \<Rightarrow> (Inr False, w3)
                         | (Inr u, w3) \<Rightarrow>
                             (case write_bytes env target_path file_data w3 of
                                (Inl e, w4) \<Rightarrow> (Inr False, w4)
                              | (Inr u, w4) \<Rightarrow> (Inr True, w4))))))"

section \<open>Content Rewriter: \<open>process_media_in_text\<close>\<close>

text \<open>
  \<^verbatim>\<open>
  image_pattern = r'src=["\']([^"\']+\.(jpg|jpeg|png|gif|svg|webp))["\']'
  matches = re.findall(image_pattern, source_text, re.IGNORECASE)
  \<close>
  A letter of the pattern matches a character of the text when the character is that
  letter in either case, or a code point from U+0080 on that the library's table equates
  with it.
\<close>

definition ieq :: "env \<Rightarrow> nat \<Rightarrow> nat \<Rightarrow> bool" where
  "ieq env p c \<longleftrightarrow> (if c < 128 then ascii_lower c = p else uni_icase env p c)"

definition is_quote :: "nat \<Rightarrow> bool" where
  "is_quote c \<longleftrightarrow> c = DQ \<or> c = SQ"

definition image_extensions :: "ustring list" where
  "image_extensions =
     [ustr ''jpg'', ustr ''jpeg'', ustr ''png'', ustr ''gif'', ustr ''svg'', ustr ''webp'']"

text \<open>
  The first group of the pattern lies between two quotes and cannot contain one, so it is
  the whole run of characters up to the next quote; it matches when that run ends with a
  dot and one of the extensions, after at least one other character.
\<close>

definition ends_with_ext :: "env \<Rightarrow> ustring \<Rightarrow> ustring \<Rightarrow> bool" where
  "ends_with_ext env body ext \<longleftrightarrow>
     length ext + 1 < length body \<and>
     (let suffix = drop (length body - (length ext + 1)) body
      in hd suffix = 46 \<and> list_all2 (ieq env) ext (tl suffix))"

definition has_image_ext :: "env \<Rightarrow> ustring \<Rightarrow> bool" where
  "has_image_ext env body \<longleftrightarrow> list_ex (ends_with_ext env body) image_extensions"

text \<open>A match of the pattern at the start of a text: the file name it captures.\<close>

fun match_image :: "env \<Rightarrow> ustring \<Rightarrow> ustring option" where
  "match_image env (s # r # c # e # q # cs) =
     (if ieq env 115 s \<and> ieq env 114 r \<and> ieq env 99 c \<and> e = 61 \<and> is_quote q
      then
        (let body = takeWhile (\<lambda>x. \<not> is_quote x) cs
         in if length body < length cs \<and> has_image_ext env body then Some body else None)
      else None)"
| "match_image env cs = None"

text \<open>
  \<open>re.findall\<close>: the matches from the left, not overlapping; after a match of file name
  \<open>body\<close> the scan goes on behind its closing quote, \<open>6 + length body\<close> characters
  further. Of the two groups the source uses only the first, \<open>match[0]\<close>.
\<close>

fun findall_images :: "env \<Rightarrow> ustring \<Rightarrow> ustring list" where
  "findall_images env [] = []"
| "findall_images env (c # cs) =
     (case match_image env (c # cs) of
        Some body \<Rightarrow> body # findall_images env (drop (5 + length body) cs)
      | None \<Rightarrow> findall_images env cs)"

text \<open>
  \<^verbatim>\<open>
  for match in matches:
      filename = match[0]
      retrieve_media_from_anki(filename, media_subfolder, media_base_dir)
      new_relative_path = f"../media/{media_subfolder}/{filename}"
      modified_text = modified_text.replace(f'src="{filename}"', f'src="{new_relative_path}"')
      modified_text = modified_text.replace(f"src='{filename}'", f"src='{new_relative_path}'")
  return modified_text
  \<close>
\<close>

definition src_attr :: "nat \<Rightarrow> ustring \<Rightarrow> ustring" where
  "src_attr q name = ustr ''src='' @ [q] @ name @ [q]"

definition rewrite_one :: "ustring \<Rightarrow> ustring \<Rightarrow> ustring \<Rightarrow> ustring" where
  "rewrite_one media_subfolder filename modified_text =
     (let new_relative_path = ustr ''../media/'' @ media_subfolder @ ustr ''/'' @ filename;
          text1 = py_replace (src_attr DQ filename) (src_attr DQ new_relative_path) modified_text
      in py_replace (src_attr SQ filename) (src_attr SQ new_relative_path) text1)"

fun process_matches ::
  "env \<Rightarrow> ustring \<Rightarrow> ustring \<Rightarrow> ustring list \<Rightarrow> ustring \<Rightarrow> world \<Rightarrow> (exn + ustring) \<times> world" where
  "process_matches env media_subfolder media_base_dir [] modified_text w = (Inr modified_text, w)"
| "process_matches env media_subfolder media_base_dir (filename # matches) modified_text w =
     (case retrieve_media_from_anki env filename media_subfolder media_base_dir w of
        (Inl e, w1) \<Rightarrow> (Inl e, w1)
      | (Inr ok, w1) \<Rightarrow>
          process_matches env media_subfolder media_base_dir matches
            (rewrite_one media_subfolder filename modified_text) w1)"

definition process_media_in_text ::
  "env \<Rightarrow> ustring \<Rightarrow> ustring \<Rightarrow> ustring \<Rightarrow> world \<Rightarrow> (exn + ustring) \<times> world" where
  "process_media_in_text env source_text media_subfolder media_base_dir w =
     process_matches env media_subfolder media_base_dir
       (findall_images env source_text) source_text w"

section \<open>Deck Exporter: \<open>export_deck\<close>\<close>

text \<open>
  \<^verbatim>\<open>
  parts = deck_name.split("::")
  if len(parts) == 1:
      matiere = "divers"
      safe_filename = slugify(parts[0])
  else:
      matiere = slugify(parts[0])
      safe_filename = "_".join([slugify(p) for p in parts[1:]])
  matiere_dir = os.path.join(output_base_dir, matiere)
  os.makedirs(matiere_dir, exist_ok=True)
  csv_path = os.path.join(matiere_dir, f"{safe_filename}.csv")
  \<close>
  \<open>csv_names\<close> returns the category directory \<open>matiere\<close> and the file name
  \<open>safe_filename + ".csv"\<close>. \<open>py_split\<close> never returns the empty list, so \<open>hd\<close>, \<open>tl\<close>
  and \<open>last\<close> are \<open>parts[0]\<close>, \<open>parts[1:]\<close> and \<open>parts[-1]\<close>.
\<close>

definition csv_names :: "env \<Rightarrow> ustring \<Rightarrow> ustring \<times> ustring" where
  "csv_names env deck_name =
     (let parts = py_split (ustr ''::'') deck_name in
      if length parts = 1
      then (ustr ''divers'', slugify env (hd parts) @ ustr ''.csv'')
      else (slugify env (hd parts),
            py_join (ustr ''_'') (map (slugify env) (tl parts)) @ ustr ''.csv''))"

definition csv_path_of :: "env \<Rightarrow> ustring \<Rightarrow> ustring \<Rightarrow> ustring" where
  "csv_path_of env output_base_dir deck_name =
     path_join (path_join output_base_dir (fst (csv_names env deck_name)))
       (snd (csv_names env deck_name))"

text \<open>
  \<^verbatim>\<open>
  for note in notes_info["result"]:
      fields_values = []
      for field_obj in note["fields"].values():
          raw_value = field_obj["value"]
          clean_value = html.unescape(raw_value)
          modified_value = process_media_in_text(clean_value, media_subfolder, media_base_dir)
          fields_values.append(modified_value)
      tags = " ".join(note["tags"])
      fields_values.append(tags)
      writer.writerow(fields_values)
      count += 1
  \<close>
  The inner loop, then the row of one note, then the loop over the notes. \<open>first\<close> says
  that nothing has been written to the file yet, \<open>pending\<close> are the bytes that wait in
  the buffers of the file; the loop returns them with its result, for the close of the
  file.
\<close>

fun field_values ::
  "env \<Rightarrow> ustring \<Rightarrow> ustring \<Rightarrow> ustring list \<Rightarrow> ustring list \<Rightarrow> world
     \<Rightarrow> (exn + ustring list) \<times> world" where
  "field_values env media_subfolder media_base_dir [] fields_values w = (Inr fields_values, w)"
| "field_values env media_subfolder media_base_dir (raw_value # raw_values) fields_values w =
     (case process_media_in_text env (unescape env raw_value) media_subfolder media_base_dir w of
        (Inl e, w1) \<Rightarrow> (Inl e, w1)
      | (Inr modified_value, w1) \<Rightarrow>
          field_values env media_subfolder media_base_dir raw_values
            (fields_values @ [modified_value]) w1)"

definition note_row ::
  "env \<Rightarrow> ustring \<Rightarrow> ustring \<Rightarrow> note_info \<Rightarrow> world \<Rightarrow> (exn + ustring list) \<times> world" where
  "note_row env media_subfolder media_base_dir n w =
     (case note_fields n of
        None \<Rightarrow> (Inl KeyError, w)
      | Some fs \<Rightarrow>
          (case field_values env media_subfolder media_base_dir (map snd fs) [] w of
             (Inl e, w1) \<Rightarrow> (Inl e, w1)
           | (Inr fields_values, w1) \<Rightarrow>
               (case note_tags n of
                  None \<Rightarrow> (Inl KeyError, w1)
                | Some ts \<Rightarrow> (Inr (fields_values @ [py_join (ustr '' '') ts]), w1))))"

fun write_notes ::
  "env \<Rightarrow> ustring \<Rightarrow> ustring \<Rightarrow> ustring \<Rightarrow> bool \<Rightarrow> nat list \<Rightarrow> nat \<Rightarrow> note_info list \<Rightarrow> world
     \<Rightarrow> (exn + nat) \<times> nat list \<times> world" where
  "write_notes env media_subfolder media_base_dir csv_path first pending count [] w =
     (Inr count, pending, w)"
| "write_notes env media_subfolder media_base_dir csv_path first pending count (n # notes) w =
     (case note_row env media_subfolder media_base_dir n w of
        (Inl e, w1) \<Rightarrow> (Inl e, pending, w1)
      | (Inr fields_values, w1) \<Rightarrow>
          (case write_text env csv_path first pending (csv_writerow fields_values) w1 of
             (Inl e, pending1, w2) \<Rightarrow> (Inl e, pending1, w2)
           | (Inr u, pending1, w2) \<Rightarrow>
               write_notes env media_subfolder media_base_dir csv_path False pending1 (count + 1)
                 notes w2))"

text \<open>
  The part of \<open>export_deck\<close> from \<open>parts = deck_name.split("::")\<close> to the end, which is the
  same in both programs:
  \<^verbatim>\<open>
  matiere_dir = os.path.join(output_base_dir, matiere)
  os.makedirs(matiere_dir, exist_ok=True)
  csv_path = os.path.join(matiere_dir, f"{safe_filename}.csv")
  try:
      with open(csv_path, "w", encoding="utf-8-sig", newline="") as f:
          writer = csv.writer(f, delimiter=";", quoting=csv.QUOTE_MINIMAL)
          count = 0
          for note in notes_info["result"]: ...
      return count
  except Exception as e:
      return 0
  \<close>
  \<open>os.makedirs\<close> stands before the \<open>try\<close>. The \<open>with\<close> block closes the file however the
  loop ends, and the close is inside the \<open>try\<close>: when it raises, the function returns 0
  also after a loop that wrote every row.
\<close>

definition media_subfolder_of :: "env \<Rightarrow> ustring \<Rightarrow> ustring" where
  "media_subfolder_of env deck_name = slugify env (last (py_split (ustr ''::'') deck_name))"

definition export_notes ::
  "env \<Rightarrow> ustring \<Rightarrow> ustring \<Rightarrow> ustring \<Rightarrow> note_info list \<Rightarrow> world \<Rightarrow> (exn + nat) \<times> world" where
  "export_notes env deck_name output_base_dir media_base_dir notes w =
     (let matiere_dir = path_join output_base_dir (fst (csv_names env deck_name)) in
      case makedirs env matiere_dir w of
        (Inl e, w1) \<Rightarrow> (Inl e, w1)
      | (Inr u, w1) \<Rightarrow>
          let csv_path = path_join matiere_dir (snd (csv_names env deck_name)) in
          (case open_w env csv_path w1 of
             (Inl e, w2) \<Rightarrow> (Inr 0, w2)
           | (Inr u, w2) \<Rightarrow>
               (case write_notes env (media_subfolder_of env deck_name) media_base_dir
                       csv_path True [] 0 notes w2 of
                  (r, pending, w3) \<Rightarrow>
                    (case close_text env csv_path pending w3 of
                       (Inl e, w4) \<Rightarrow> (Inr 0, w4)
                     | (Inr u, w4) \<Rightarrow>
                         (case r of Inl e \<Rightarrow> (Inr 0, w4) | Inr count \<Rightarrow> (Inr count, w4))))))"

definition deck_query :: "ustring \<Rightarrow> ustring" where
  "deck_query deck_name = [DQ] @ ustr ''deck:'' @ deck_name @ [DQ]"

text \<open>
  \<open>export_deck\<close> of \<open>export_with_media.py\<close>:
  \<^verbatim>\<open>
  media_subfolder = slugify(deck_name.split("::")[-1])
  find_notes = request("findNotes", query=f'"deck:{deck_name}"')
  if not find_notes:
      return 0
  notes_info = request("notesInfo", notes=find_notes["result"])
  if not notes_info:
      return 0
  \<close>
  A response is a dictionary with the keys \<open>result\<close> and \<open>error\<close>, so it is false only
  when it is \<open>None\<close>: a deck without notes goes on to the file.
\<close>

definition export_deck ::
  "env \<Rightarrow> ustring \<Rightarrow> ustring \<Rightarrow> ustring \<Rightarrow> world \<Rightarrow> (exn + nat) \<times> world" where
  "export_deck env deck_name output_base_dir media_base_dir w =
     (case request_findNotes env (deck_query deck_name) w of
        (None, w1) \<Rightarrow> (Inr 0, w1)
      | (Some note_ids, w1) \<Rightarrow>
          (case request_notesInfo env note_ids w1 of
             (None, w2) \<Rightarrow> (Inr 0, w2)
           | (Some notes, w2) \<Rightarrow>
               export_notes env deck_name output_base_dir media_base_dir notes w2))"

text \<open>
  \<open>export_deck\<close> of \<open>anki_companion.py\<close>, which also stops when the deck has no notes:
  \<^verbatim>\<open>
  try:
      note_ids = anki_request("findNotes", query=f'"deck:{deck_name}"')
  except Exception as e:
      return 0
  if not note_ids:
      return 0
  try:
      notes_info = anki_request("notesInfo", notes=note_ids)
  except Exception as e:
      return 0
  \<close>
\<close>

definition gui_export_deck ::
  "env \<Rightarrow> ustring \<Rightarrow> ustring \<Rightarrow> ustring \<Rightarrow> world \<Rightarrow> (exn + nat) \<times> world" where
  "gui_export_deck env deck_name output_base_dir media_base_dir w =
     (case request_findNotes env (deck_query deck_name) w of
        (None, w1) \<Rightarrow> (Inr 0, w1)
      | (Some note_ids, w1) \<Rightarrow>
          if note_ids = [] then (Inr 0, w1)
          else
            (case request_notesInfo env note_ids w1 of
               (None, w2) \<Rightarrow> (Inr 0, w2)
             | (Some notes, w2) \<Rightarrow>
                 export_notes env deck_name output_base_dir media_base_dir notes w2))"

section \<open>Collection Driver\<close>

text \<open>
  \<^verbatim>\<open>
  total = 0
  for deck in target_decks:
      total += export_deck(deck, output_dir, media_dir)
  \<close>
  The loop of \<open>main\<close> and of \<open>_do_export\<close>, for either \<open>export_deck\<close>; \<open>total_sum\<close> is the
  variable \<open>total\<close>. Nothing catches an exception here.
\<close>

fun export_all ::
  "(ustring \<Rightarrow> ustring \<Rightarrow> ustring \<Rightarrow> world \<Rightarrow> (exn + nat) \<times> world)
     \<Rightarrow> ustring \<Rightarrow> ustring \<Rightarrow> ustring list \<Rightarrow> nat \<Rightarrow> world \<Rightarrow> (exn + nat) \<times> world" where
  "export_all export output_dir media_dir [] total_sum w = (Inr total_sum, w)"
| "export_all export output_dir media_dir (deck # target_decks) total_sum w =
     (case export deck output_dir media_dir w of
        (Inl e, w1) \<Rightarrow> (Inl e, w1)
      | (Inr count, w1) \<Rightarrow> export_all export output_dir media_dir target_decks (total_sum + count) w1)"

subsection \<open>The selection of \<open>main\<close>\<close>

text \<open>
  \<open>str.isspace\<close> and \<open>str.lower\<close> on any text: on ASCII as above, beyond it by the
  library's tables.
\<close>

definition py_isspace :: "env \<Rightarrow> nat \<Rightarrow> bool" where
  "py_isspace env c \<longleftrightarrow> (if c < 128 then is_space c else uni_space env c)"

definition py_lower :: "env \<Rightarrow> ustring \<Rightarrow> ustring" where
  "py_lower env s = (if list_all (\<lambda>c. c < 128) s then map ascii_lower s else uni_lower env s)"

text \<open>
  \<open>int(s)\<close> for a string. Python first turns every decimal digit into its ASCII digit,
  every space beyond ASCII into a blank and every other code point beyond ASCII into
  \<open>?\<close>; then it reads blanks, an optional sign, digits with single underscores between
  them, and blanks, up to the end of the text. A text that is not of this form, or has
  more digits than the limit allows, raises \<open>ValueError\<close> (\<open>None\<close>).
\<close>

definition to_ascii :: "env \<Rightarrow> nat \<Rightarrow> nat" where
  "to_ascii env c =
     (if c < 128 then c
      else if uni_space env c then 32
      else (case uni_digit env c of Some d \<Rightarrow> 48 + d | None \<Rightarrow> 63))"

definition is_blank :: "nat \<Rightarrow> bool" where
  "is_blank c \<longleftrightarrow> (9 \<le> c \<and> c \<le> 13) \<or> c = 32"

definition is_digit :: "nat \<Rightarrow> bool" where
  "is_digit c \<longleftrightarrow> 48 \<le> c \<and> c \<le> 57"

fun underscores_ok :: "ustring \<Rightarrow> bool" where
  "underscores_ok [] = False"
| "underscores_ok [c] = is_digit c"
| "underscores_ok (c # d # cs) =
     (if c = 95 then False
      else if d = 95 then cs \<noteq> [] \<and> underscores_ok cs
      else underscores_ok (d # cs))"

definition digits_value :: "ustring \<Rightarrow> nat" where
  "digits_value ds = foldl (\<lambda>n c. 10 * n + (c - 48)) 0 ds"

definition py_int :: "env \<Rightarrow> ustring \<Rightarrow> int option" where
  "py_int env s =
     (let t = dropWhile is_blank (map (to_ascii env) s);
          negative = (t \<noteq> [] \<and> hd t = 45);
          body = (if t \<noteq> [] \<and> (hd t = 45 \<or> hd t = 43) then tl t else t);
          run = takeWhile (\<lambda>c. is_digit c \<or> c = 95) body;
          rest = dropWhile is_blank (drop (length run) body);
          ds = filter is_digit run
      in if rest \<noteq> [] \<or> \<not> underscores_ok run then None
         else if 640 < length ds \<and> 0 < max_str_digits env \<and> max_str_digits env < length ds
         then None
         else Some (if negative then - int (digits_value ds) else int (digits_value ds)))"

text \<open>
  \<^verbatim>\<open>
  target_decks = []
  if len(sys.argv) >= 3:
      selection = sys.argv[2].strip().lower()
      if selection == "all":
          target_decks = all_decks
      else:
          try:
              indices = [int(x.strip()) for x in selection.split(",")]
              target_decks = [all_decks[i] for i in indices if 0 <= i < len(all_decks)]
          except (ValueError, IndexError):
              print("[ERREUR] Indices invalides.")
              sys.exit(1)
  else:
      target_decks = all_decks
  \<close>
  \<open>argv\<close> is \<open>sys.argv\<close>, the name of the script first.
\<close>

fun those_ints :: "int option list \<Rightarrow> int list option" where
  "those_ints [] = Some []"
| "those_ints (None # xs) = None"
| "those_ints (Some i # xs) = (case those_ints xs of None \<Rightarrow> None | Some is \<Rightarrow> Some (i # is))"

definition in_range :: "'a list \<Rightarrow> int \<Rightarrow> bool" where
  "in_range all_decks i \<longleftrightarrow> 0 \<le> i \<and> i < int (length all_decks)"

definition select_decks :: "env \<Rightarrow> ustring list \<Rightarrow> ustring list \<Rightarrow> exn + ustring list" where
  "select_decks env argv all_decks =
     (if 3 \<le> length argv then
        (let selection = py_lower env (py_strip (py_isspace env) (argv ! 2)) in
         if selection = ustr ''all'' then Inr all_decks
         else
           (case those_ints (map (\<lambda>x. py_int env (py_strip (py_isspace env) x))
                                 (py_split (ustr '','') selection)) of
              None \<Rightarrow> Inl (SystemExit 1)
            | Some indices \<Rightarrow>
                Inr (map (\<lambda>i. all_decks ! nat i) (filter (in_range all_decks) indices))))
      else Inr all_decks)"

text \<open>
  \<open>main\<close> of \<open>export_with_media.py\<close>. \<open>sys.exit(n)\<close> is the exception \<open>SystemExit n\<close>; the
  \<open>OSError\<close> of \<open>os.makedirs\<close> and whatever \<open>export_deck\<close> raises end the run.
\<close>

definition main :: "env \<Rightarrow> ustring list \<Rightarrow> world \<Rightarrow> (exn + nat) \<times> world" where
  "main env argv w =
     (if length argv < 2 then (Inl (SystemExit 1), w)
      else
        (let target_dir = argv ! 1 in
         if target_dir \<notin> dirs w then (Inl (SystemExit 1), w)
         else
           (let output_dir = path_join target_dir (ustr ''decks'');
                media_dir = path_join target_dir (ustr ''media'')
            in case makedirs env output_dir w of
                 (Inl e, w1) \<Rightarrow> (Inl e, w1)
               | (Inr u, w1) \<Rightarrow>
                   (case makedirs env media_dir w1 of
                      (Inl e, w2) \<Rightarrow> (Inl e, w2)
                    | (Inr u, w2) \<Rightarrow>
                        (case request_deckNames env w2 of
                           (None, w3) \<Rightarrow> (Inl (SystemExit 1), w3)
                         | (Some all_decks, w3) \<Rightarrow>
                             if all_decks = [] then (Inl (SystemExit 0), w3)
                             else
                               (case select_decks env argv all_decks of
                                  Inl e \<Rightarrow> (Inl e, w3)
                                | Inr target_decks \<Rightarrow>
                                    if target_decks = [] then (Inl (SystemExit 0), w3)
                                    else export_all (export_deck env) output_dir media_dir
                                           target_decks 0 w3))))))"

text \<open>
  \<open>_do_export\<close> of \<open>anki_companion.py\<close>, run on the decks ticked in the dialog:
  \<^verbatim>\<open>
  output_dir = os.path.join(dest, "decks")
  media_dir = os.path.join(dest, "media")
  os.makedirs(output_dir, exist_ok=True)
  os.makedirs(media_dir, exist_ok=True)
  total = 0
  for deck in selected_decks:
      total += export_deck(deck, output_dir, media_dir, log_fn=self._log)
  \<close>
\<close>

definition gui_do_export :: "env \<Rightarrow> ustring \<Rightarrow> ustring list \<Rightarrow> world \<Rightarrow> (exn + nat) \<times> world" where
  "gui_do_export env dest selected_decks w =
     (let output_dir = path_join dest (ustr ''decks'');
          media_dir = path_join dest (ustr ''media'')
      in case makedirs env output_dir w of
           (Inl e, w1) \<Rightarrow> (Inl e, w1)
         | (Inr u, w1) \<Rightarrow>
             (case makedirs env media_dir w1 of
                (Inl e, w2) \<Rightarrow> (Inl e, w2)
              | (Inr u, w2) \<Rightarrow>
                  export_all (gui_export_deck env) output_dir media_dir selected_decks 0 w2))"



text \<open>
  The text that the loop of \<open>process_media_in_text\<close> computes, without the fetches: the
  file names found in the source text, taken in order, each rewritten in the text as it
  stands by then.
\<close>

definition rewritten_text :: "env \<Rightarrow> ustring \<Rightarrow> ustring \<Rightarrow> ustring" where
  "rewritten_text env media_subfolder source_text =
     foldl (\<lambda>modified_text filename. rewrite_one media_subfolder filename modified_text)
       source_text (findall_images env source_text)"

text \<open>An image tag with the given quote character around the path.\<close>

definition img_tag :: "nat \<Rightarrow> ustring \<Rightarrow> ustring" where
  "img_tag q name = ustr ''<img src='' @ [q] @ name @ [q] @ ustr ''>''"

section \<open>What a deck export writes\<close>

text \<open>
  The row of a note, as the loops of \<open>export_deck\<close> build it when nothing raises: one
  column for each field, in the order of the note's \<open>fields\<close>, holding the field's value
  after \<open>html.unescape\<close> and the rewriting of its image references, and a last column with
  the tags joined by single blanks. There is no row for a note without \<open>fields\<close> or
  without \<open>tags\<close>.
\<close>

definition row_of :: "env \<Rightarrow> ustring \<Rightarrow> note_info \<Rightarrow> ustring list option" where
  "row_of env media_subfolder n =
     (case note_fields n of
        None \<Rightarrow> None
      | Some fs \<Rightarrow>
          (case note_tags n of
             None \<Rightarrow> None
           | Some ts \<Rightarrow>
               Some (map (\<lambda>(name, raw_value). rewritten_text env media_subfolder (unescape env raw_value)) fs
                     @ [py_join (ustr '' '') ts])))"

text \<open>The bytes of the line that \<open>csv.writer\<close> and the encoder make of that row.\<close>

definition note_bytes :: "env \<Rightarrow> ustring \<Rightarrow> note_info \<Rightarrow> nat list option" where
  "note_bytes env media_subfolder n =
     (case row_of env media_subfolder n of
        None \<Rightarrow> None
      | Some row \<Rightarrow> utf8_encode (csv_writerow row))"


text \<open>
  What the media fetches of a deck leave alone: no directory disappears, and no file
  whose path ends in \<open>v\<close> changes (a media path ends with the last letter of an image
  extension, the path of a deck's file with \<open>.csv\<close>).
\<close>

definition media_frame :: "world \<Rightarrow> world \<Rightarrow> bool" where
  "media_frame w w' \<longleftrightarrow> dirs w \<subseteq> dirs w' \<and> (\<forall>p. last p = 118 \<longrightarrow> files w' p = files w p)"


section \<open>A concrete environment\<close>

text \<open>
  For runs on concrete inputs: a normaliser that decomposes U+00E9 (e with acute) into
  \<open>e\<close> and the combining acute accent and leaves every other code point alone, a
  decoder that knows one text (\<open>QUJD\<close>, the bytes \<open>ABC\<close>), library tables that are
  empty beyond ASCII, a host with two decks whose notes are \<open>demo_notes\<close> and whose media
  files all have the content \<open>QUJD\<close>, an operating system that refuses nothing and stores
  every byte, and text files that keep up to 8192 bytes in their buffer.
\<close>

definition nfkd_demo :: "ustring \<Rightarrow> ustring" where
  "nfkd_demo s = concat (map (\<lambda>c. if c = 233 then [101, 769] else [c]) s)"

definition demo_notes :: "note_info list" where
  "demo_notes =
     [\<lparr>note_fields = Some [(ustr ''Front'', ustr ''<img src='' @ [DQ] @ ustr ''a.png'' @ [DQ] @ ustr ''>''),
                            (ustr ''Back'', ustr ''A;B'')],
       note_tags = Some [ustr ''chapter1'', ustr ''review'']\<rparr>,
      \<lparr>note_fields = Some [(ustr ''Front'', ustr ''<b>Q</b>''), (ustr ''Back'', ustr ''A'')],
       note_tags = Some []\<rparr>]"

definition demo_env :: env where
  "demo_env =
     \<lparr>nfkd = nfkd_demo,
      unescape = (\<lambda>s. s),
      b64decode = (\<lambda>s. if s = ustr ''QUJD'' then Some [65, 66, 67] else None),
      uni_space = (\<lambda>c. False),
      uni_lower = (\<lambda>s. s),
      uni_digit = (\<lambda>c. None),
      uni_icase = (\<lambda>p c. False),
      max_str_digits = 4300,
      host_decks = (\<lambda>log. Some [ustr ''Math::Algebra'', ustr ''Vocabulary'']),
      host_find = (\<lambda>log query. Some [1, 2]),
      host_notes = (\<lambda>log ids. Some demo_notes),
      host_media = (\<lambda>log filename. Some (Some (ustr ''QUJD''))),
      mkdir_fault = (\<lambda>w d. False),
      open_fault = (\<lambda>w p. False),
      os_store = (\<lambda>w p bs. length bs),
      flush_now = (\<lambda>buffer. if 8192 \<le> length buffer then length buffer else 0)\<rparr>"

text \<open>A world with the destination directory \<open>/out\<close> and nothing else.\<close>

definition demo_world :: world where
  "demo_world = \<lparr>dirs = {ustr ''/out''}, files = Map.empty, calls = []\<rparr>"

text \<open>Three variations: a host that cannot be reached for media files, a disk on which
  a write stores two bytes and fails, and a filesystem on which no directory can be
  created.\<close>

definition offline_env :: env where
  "offline_env = demo_env\<lparr>host_media := (\<lambda>log filename. None)\<rparr>"



text \<open>The Media Fetcher called twice in sequence with the same arguments.\<close>

definition fetch_twice ::
  "env \<Rightarrow> ustring \<Rightarrow> ustring \<Rightarrow> ustring \<Rightarrow> world \<Rightarrow> (exn + bool) \<times> (exn + bool) \<times> world" where
  "fetch_twice env filename media_subfolder media_base_dir w =
     (case retrieve_media_from_anki env filename media_subfolder media_base_dir w of
        (r1, w1) \<Rightarrow>
          (case retrieve_media_from_anki env filename media_subfolder media_base_dir w1 of
             (r2, w2) \<Rightarrow> (r1, r2, w2)))"

text \<open>
  A host whose second note of three is the empty object, the two lines that the notes of
  \<open>demo_notes\<close> give in the deck \<open>Math::Algebra\<close>, a world that holds an earlier CSV
  file of that deck, a world in which a regular file has the name of that deck's
  category directory, and a world in which a directory has the name of that deck's CSV
  file.
\<close>

definition empty_note :: note_info where
  "empty_note = \<lparr>note_fields = None, note_tags = None\<rparr>"

definition broken_env :: env where
  "broken_env = demo_env\<lparr>host_notes := (\<lambda>log ids. Some [hd demo_notes, empty_note, last demo_notes])\<rparr>"

definition algebra_row1 :: "nat list" where
  "algebra_row1 =
     [DQ] @ ustr ''<img src='' @ [DQ, DQ] @ ustr ''../media/algebra/a.png'' @ [DQ, DQ] @ ustr ''>''
       @ [DQ] @ ustr '';'' @ [DQ] @ ustr ''A;B'' @ [DQ] @ ustr '';chapter1 review'' @ [13, 10]"

definition algebra_row2 :: "nat list" where
  "algebra_row2 = ustr ''<b>Q</b>;A;'' @ [13, 10]"

definition stale_world :: world where
  "stale_world =
     \<lparr>dirs = {ustr ''/out'', ustr ''/out/decks'', ustr ''/out/decks/math''},
      files = [ustr ''/out/decks/math/algebra.csv'' \<mapsto> ustr ''old content''],
      calls = []\<rparr>"

definition blocked_category_world :: world where
  "blocked_category_world =
     \<lparr>dirs = {ustr ''/out'', ustr ''/out/decks''},
      files = [ustr ''/out/decks/math'' \<mapsto> []],
      calls = []\<rparr>"

definition blocked_csv_world :: world where
  "blocked_csv_world =
     \<lparr>dirs = {ustr ''/out'', ustr ''/out/decks'', ustr ''/out/decks/math'',
              ustr ''/out/decks/math/algebra.csv''},
      files = Map.empty,
      calls = []\<rparr>"

text \<open>
  A host whose deck has no notes, a disk on which a write stores thirty bytes at most,
  and a world in which a regular file has the name of the media directory of the deck
  \<open>Math::Algebra\<close>.
\<close>

definition no_notes_env :: env where
  "no_notes_env = demo_env\<lparr>host_find := (\<lambda>log query. Some []), host_notes := (\<lambda>log ids. Some [])\<rparr>"

definition small_disk_env :: env where
  "small_disk_env = demo_env\<lparr>os_store := (\<lambda>w p bs. 30)\<rparr>"

definition blocked_media_world :: world where
  "blocked_media_world =
     \<lparr>dirs = {ustr ''/out'', ustr ''/out/media''},
      files = [ustr ''/out/media/algebra'' \<mapsto> []],
      calls = []\<rparr>"

section \<open>Lemmas on strings\<close>

lemma split_from_nonempty: "split_from sep cur s \<noteq> []"
  by (induction sep cur s rule: split_from.induct) auto

lemma py_split_nonempty: "py_split sep s \<noteq> []"
  by (simp add: py_split_def split_from_nonempty)

lemma occurs_Nil: "occurs sep [] \<longleftrightarrow> sep = []"
  by (auto simp: occurs_def)


lemma occurs_Cons:
  "occurs sep (c # cs) \<longleftrightarrow> prefix sep (c # cs) \<or> occurs sep cs"
proof
  assume "occurs sep (c # cs)"
  then obtain u v where uv: "c # cs = u @ sep @ v" by (auto simp: occurs_def)
  show "prefix sep (c # cs) \<or> occurs sep cs"
  proof (cases u)
    case Nil
    with uv show ?thesis by (auto simp: prefix_def)
  next
    case (Cons a u')
    with uv have "cs = u' @ sep @ v" by simp
    then show ?thesis by (auto simp: occurs_def)
  qed
next
  assume "prefix sep (c # cs) \<or> occurs sep cs"
  then show "occurs sep (c # cs)"
  proof
    assume "prefix sep (c # cs)"
    then obtain v where "c # cs = sep @ v" by (auto simp: prefix_def)
    then have "c # cs = [] @ sep @ v" by simp
    then show ?thesis unfolding occurs_def by blast
  next
    assume "occurs sep cs"
    then obtain u v where "cs = u @ sep @ v" by (auto simp: occurs_def)
    then have "c # cs = (c # u) @ sep @ v" by simp
    then show ?thesis unfolding occurs_def by blast
  qed
qed

lemma split_from_no_occurrence:
  "\<not> occurs sep s \<Longrightarrow> split_from sep cur s = [cur @ s]"
  by (induction s arbitrary: cur) (auto simp: occurs_Cons)

lemma split_from_occurrence:
  "sep \<noteq> [] \<Longrightarrow> occurs sep s \<Longrightarrow> 2 \<le> length (split_from sep cur s)"
proof (induction s arbitrary: cur)
  case Nil
  then show ?case by (simp add: occurs_def)
next
  case (Cons c cs)
  show ?case
  proof (cases "prefix sep (c # cs)")
    case True
    have "1 \<le> length (split_from sep [] (drop (length sep - 1) cs))"
      using split_from_nonempty [of sep "[]" "drop (length sep - 1) cs"]
      by (cases "split_from sep [] (drop (length sep - 1) cs)") auto
    with True Cons.prems(1) show ?thesis by simp
  next
    case False
    with Cons.prems have "occurs sep cs" by (simp add: occurs_Cons)
    with False Cons.IH [OF Cons.prems(1)] show ?thesis by simp
  qed
qed

lemma py_join_Cons: "xs \<noteq> [] \<Longrightarrow> py_join sep (x # xs) = x @ sep @ py_join sep xs"
  by (cases xs) auto

lemma join_split_from:
  "sep \<noteq> [] \<Longrightarrow> py_join sep (split_from sep cur s) = cur @ s"
proof (induction sep cur s rule: split_from.induct)
  case (1 sep cur)
  then show ?case by simp
next
  case (2 sep cur c cs)
  show ?case
  proof (cases "prefix sep (c # cs)")
    case True
    then obtain v where v: "c # cs = sep @ v" by (auto simp: prefix_def)
    from "2.prems" v have d: "drop (length sep - 1) cs = v"
      by (cases sep) auto
    have "split_from sep cur (c # cs) = cur # split_from sep [] v"
      using True "2.prems" d by simp
    moreover have "py_join sep (split_from sep [] v) = v"
      using "2.IH"(1) True "2.prems" d by simp
    ultimately show ?thesis
      by (simp add: py_join_Cons split_from_nonempty v)
  next
    case False
    with "2.prems" "2.IH"(2) show ?thesis by simp
  qed
qed

section \<open>The Name Sanitizer\<close>

lemma sub_runs_chars:
  "\<forall>c\<in>set s. is_slug_char c \<or> is_dash_space c \<Longrightarrow> list_all is_slug_char (sub_runs s)"
proof (induction s rule: sub_runs.induct)
  case 1
  then show ?case by simp
next
  case (2 c cs)
  show ?case
  proof (cases "is_dash_space c")
    case True
    have "\<forall>x\<in>set (dropWhile is_dash_space cs). is_slug_char x \<or> is_dash_space x"
      using "2.prems" by (auto dest: set_dropWhileD)
    with True "2.IH"(1) show ?thesis by (simp add: is_slug_char_def)
  next
    case False
    with "2.prems" "2.IH"(2) show ?thesis by simp
  qed
qed

lemma keep_lower: "slug_keep c \<Longrightarrow> is_slug_char (ascii_lower c) \<or> is_dash_space (ascii_lower c)"
  by (auto simp: slug_keep_def is_slug_char_def is_dash_space_def ascii_lower_def is_word_def is_space_def)

lemma set_py_strip: "set (py_strip sp s) \<subseteq> set s"
  unfolding py_strip_def by (auto dest!: set_dropWhileD)

lemma slugify_chars: "list_all is_slug_char (slugify env x)"
proof -
  let ?kept = "filter slug_keep (encode_ascii_ignore (nfkd env x))"
  have "\<forall>c\<in>set (py_strip is_space ?kept). slug_keep c"
    using set_py_strip [of is_space ?kept] by auto
  then have "\<forall>c\<in>set (map ascii_lower (py_strip is_space ?kept)).
          is_slug_char c \<or> is_dash_space c"
    using keep_lower by auto
  then show ?thesis
    unfolding slugify_def Let_def by (rule sub_runs_chars)
qed

lemma sub_runs_slug_id: "list_all is_slug_char s \<Longrightarrow> sub_runs s = s"
  by (induction s) (auto simp: is_slug_char_def is_dash_space_def is_space_def)

lemma strip_id: "list_all (\<lambda>c. \<not> sp c) s \<Longrightarrow> py_strip sp s = s"
proof -
  assume a: "list_all (\<lambda>c. \<not> sp c) s"
  have d: "dropWhile sp t = t" if "list_all (\<lambda>c. \<not> sp c) t" for t
    using that by (cases t) auto
  have "list_all (\<lambda>c. \<not> sp c) (rev s)" using a by (simp add: list_all_iff)
  then show ?thesis using a by (simp add: py_strip_def d)
qed

lemma slugify_slug_id:
  assumes "nfkd_fixes_ascii env" and "list_all is_slug_char s"
  shows "slugify env s = s"
proof -
  have ascii: "list_all (\<lambda>c. c < 128) s"
    using assms(2) by (auto simp: list_all_iff is_slug_char_def)
  have n: "nfkd env s = s" using assms(1) ascii by (simp add: nfkd_fixes_ascii_def)
  have e: "encode_ascii_ignore s = s" using ascii by (simp add: encode_ascii_ignore_def list_all_iff)
  have k: "filter slug_keep s = s"
    using assms(2) by (auto simp: list_all_iff slug_keep_def is_slug_char_def is_word_def intro!: filter_True)
  have st: "py_strip is_space s = s"
    using assms(2) by (intro strip_id) (auto simp: list_all_iff is_slug_char_def is_space_def)
  have lo: "map ascii_lower s = s"
    using assms(2) by (auto simp: list_all_iff is_slug_char_def ascii_lower_def intro!: map_idI)
  show ?thesis
    by (simp add: slugify_def n e k st lo sub_runs_slug_id [OF assms(2)])
qed

lemma nfkd_demo_ascii: "list_all (\<lambda>c. c < 128) s \<Longrightarrow> nfkd_demo s = s"
  by (induction s) (auto simp: nfkd_demo_def)

lemma demo_env_fixes_ascii: "nfkd_fixes_ascii demo_env"
  by (simp add: nfkd_fixes_ascii_def demo_env_def nfkd_demo_ascii)

text \<open>
  C6. Sanitizing twice gives what sanitizing once gives, for every text, the empty one
  and those made of punctuation included, and the token consists of digits, underscores
  and lower-case letters only. \<open>slugify\<close> is a total function of its argument: no step
  of the source can raise on a string. The normaliser is assumed to leave ASCII text
  unchanged, as NFKD does.
\<close>

theorem slugify_idempotent:
  "nfkd_fixes_ascii env \<Longrightarrow>
     slugify env (slugify env x) = slugify env x \<and> list_all is_slug_char (slugify env x)"
  by (simp add: slugify_slug_id slugify_chars)

theorem slugify_idempotent_witness:
  "nfkd_fixes_ascii demo_env \<and>
   slugify demo_env (ustr ''  Caf'' @ [233] @ ustr '' - au  lait!! '') = ustr ''cafe_au_lait'' \<and>
   slugify demo_env (slugify demo_env (ustr ''  Caf'' @ [233] @ ustr '' - au  lait!! ''))
     = slugify demo_env (ustr ''  Caf'' @ [233] @ ustr '' - au  lait!! '') \<and>
   slugify demo_env (slugify demo_env []) = slugify demo_env [] \<and>
   slugify demo_env (slugify demo_env (ustr ''?!...'')) = slugify demo_env (ustr ''?!...'')"
proof -
  have v: "slugify demo_env (ustr ''  Caf'' @ [233] @ ustr '' - au  lait!! '') = ustr ''cafe_au_lait''"
    by code_simp
  show ?thesis
    using demo_env_fixes_ascii v
      slugify_idempotent [OF demo_env_fixes_ascii, of "ustr ''  Caf'' @ [233] @ ustr '' - au  lait!! ''"]
      slugify_idempotent [OF demo_env_fixes_ascii, of "[]"]
      slugify_idempotent [OF demo_env_fixes_ascii, of "ustr ''?!...''"]
    by simp
qed

section \<open>The path of the CSV file\<close>

text \<open>
  C1, as the source has it. A deck name without \<open>::\<close> gets the category \<open>divers\<close> and
  the sanitized name as file name; a name with \<open>::\<close> gets the sanitized first segment
  as category and the sanitized remaining segments, joined by underscores, as file name;
  the segments are those of \<open>split\<close>, which joined by \<open>::\<close> give the name back. So
  \<open>Math::Algebra::Linear\<close> is exported to \<open>math/algebra_linear.csv\<close> and \<open>Vocabulary\<close> to
  \<open>divers/vocabulary.csv\<close>.
\<close>

theorem csv_names_derivation:
  "(\<not> occurs (ustr ''::'') deck_name \<longrightarrow>
      csv_names env deck_name = (ustr ''divers'', slugify env deck_name @ ustr ''.csv'')) \<and>
   (occurs (ustr ''::'') deck_name \<longrightarrow>
      csv_names env deck_name =
        (slugify env (hd (py_split (ustr ''::'') deck_name)),
         py_join (ustr ''_'') (map (slugify env) (tl (py_split (ustr ''::'') deck_name)))
           @ ustr ''.csv'')) \<and>
   py_join (ustr ''::'') (py_split (ustr ''::'') deck_name) = deck_name \<and>
   (nfkd_fixes_ascii env \<longrightarrow>
      csv_names env (ustr ''Math::Algebra::Linear'') = (ustr ''math'', ustr ''algebra_linear.csv'') \<and>
      csv_names env (ustr ''Vocabulary'') = (ustr ''divers'', ustr ''vocabulary.csv''))"
proof (intro conjI impI)
  assume "\<not> occurs (ustr ''::'') deck_name"
  then show "csv_names env deck_name = (ustr ''divers'', slugify env deck_name @ ustr ''.csv'')"
    by (simp add: csv_names_def py_split_def split_from_no_occurrence)
next
  assume "occurs (ustr ''::'') deck_name"
  then have "2 \<le> length (py_split (ustr ''::'') deck_name)"
    unfolding py_split_def by (intro split_from_occurrence) auto
  then show "csv_names env deck_name =
        (slugify env (hd (py_split (ustr ''::'') deck_name)),
         py_join (ustr ''_'') (map (slugify env) (tl (py_split (ustr ''::'') deck_name)))
           @ ustr ''.csv'')"
    by (simp add: csv_names_def Let_def)
next
  show "py_join (ustr ''::'') (py_split (ustr ''::'') deck_name) = deck_name"
    using join_split_from [of "ustr ''::''" "[]" deck_name] by (simp add: py_split_def)
next
  assume h: "nfkd_fixes_ascii env"
  have n: "nfkd env s = s" if "list_all (\<lambda>c. c < 128) s" for s
    using h that by (simp add: nfkd_fixes_ascii_def)
  have s1: "slugify env (ustr ''Math'') = ustr ''math''"
    by (simp add: slugify_def n encode_ascii_ignore_def slug_keep_def is_word_def is_space_def
          py_strip_def ascii_lower_def is_dash_space_def)
  have s2: "slugify env (ustr ''Algebra'') = ustr ''algebra''"
    by (simp add: slugify_def n encode_ascii_ignore_def slug_keep_def is_word_def is_space_def
          py_strip_def ascii_lower_def is_dash_space_def)
  have s3: "slugify env (ustr ''Linear'') = ustr ''linear''"
    by (simp add: slugify_def n encode_ascii_ignore_def slug_keep_def is_word_def is_space_def
          py_strip_def ascii_lower_def is_dash_space_def)
  have s4: "slugify env (ustr ''Vocabulary'') = ustr ''vocabulary''"
    by (simp add: slugify_def n encode_ascii_ignore_def slug_keep_def is_word_def is_space_def
          py_strip_def ascii_lower_def is_dash_space_def)
  have p1: "py_split (ustr ''::'') (ustr ''Math::Algebra::Linear'')
              = [ustr ''Math'', ustr ''Algebra'', ustr ''Linear'']"
    by (simp add: py_split_def)
  have p2: "py_split (ustr ''::'') (ustr ''Vocabulary'') = [ustr ''Vocabulary'']"
    by (simp add: py_split_def)
  show "csv_names env (ustr ''Math::Algebra::Linear'') = (ustr ''math'', ustr ''algebra_linear.csv'')"
    unfolding csv_names_def p1 Let_def using s1 s2 s3 by simp
  show "csv_names env (ustr ''Vocabulary'') = (ustr ''divers'', ustr ''vocabulary.csv'')"
    unfolding csv_names_def p2 Let_def using s4 by simp
qed

theorem csv_names_derivation_witness:
  "nfkd_fixes_ascii demo_env \<and>
   \<not> occurs (ustr ''::'') (ustr ''Vocabulary'') \<and>
   occurs (ustr ''::'') (ustr ''Math::Algebra::Linear'') \<and>
   csv_names demo_env (ustr ''Vocabulary'') = (ustr ''divers'', ustr ''vocabulary.csv'') \<and>
   csv_names demo_env (ustr ''Math::Algebra::Linear'') = (ustr ''math'', ustr ''algebra_linear.csv'') \<and>
   py_split (ustr ''::'') (ustr ''Math::Algebra::Linear'')
     = [ustr ''Math'', ustr ''Algebra'', ustr ''Linear'']"
proof -
  have a: "\<not> occurs (ustr ''::'') (ustr ''Vocabulary'')"
    by (simp add: occurs_Cons occurs_Nil)
  have b: "occurs (ustr ''::'') (ustr ''Math::Algebra::Linear'')"
    by (simp add: occurs_Cons occurs_Nil)
  have c: "py_split (ustr ''::'') (ustr ''Math::Algebra::Linear'')
             = [ustr ''Math'', ustr ''Algebra'', ustr ''Linear'']"
    by (simp add: py_split_def)
  show ?thesis
    using a b c demo_env_fixes_ascii
      csv_names_derivation [of "ustr ''Vocabulary''" demo_env]
      csv_names_derivation [of "ustr ''Math::Algebra::Linear''" demo_env]
    by simp
qed

text \<open>
  C1, as the specification has it: the category of a deck without \<open>::\<close> is not
  \<open>uncategorized\<close>.
\<close>

theorem csv_names_fallback_counterexample:
  "fst (csv_names demo_env (ustr ''Vocabulary'')) = ustr ''divers'' \<and>
   fst (csv_names demo_env (ustr ''Vocabulary'')) \<noteq> ustr ''uncategorized''"
  by code_simp


section \<open>The selection of the Collection Driver\<close>





















lemma select_decks_negative_index:
  "select_decks demo_env [ustr ''export.py'', ustr ''/out'', ustr ''-1, 0'']
     [ustr ''A'', ustr ''B''] = Inr [ustr ''A'']"
  by code_simp

lemma select_decks_malformed:
  "select_decks demo_env [ustr ''export.py'', ustr ''/out'', ustr ''1,,0'']
     [ustr ''A'', ustr ''B''] = Inl (SystemExit 1)"
  by code_simp



section \<open>The Media Fetcher\<close>

lemma makedirs_existing: "d \<in> dirs w \<Longrightarrow> makedirs env d w = (Inr (), w)"
  by (simp add: makedirs_def)

lemma makedirs_raise:
  "makedirs env d w = (Inl e, w1) \<Longrightarrow> e = OSError \<and> w1 = w \<and> d \<notin> dirs w"
  by (auto simp: makedirs_def split: if_splits)

lemma makedirs_ok:
  "makedirs env d w = (Inr u, w1) \<Longrightarrow>
     d \<in> dirs w1 \<and> files w1 = files w \<and> calls w1 = calls w \<and> dirs w \<subseteq> dirs w1 \<and>
     dirs w1 \<subseteq> dirs w \<union> {d} \<union> set (path_ancestors d)"
  by (auto simp: makedirs_def split: if_splits)

lemma retrieve_cases:
  assumes "retrieve_media_from_anki env filename sub base w = (r, w')"
  shows "(r = Inl OSError \<and> w' = w \<and> path_join base sub \<notin> dirs w) \<or>
         (\<exists>w1. makedirs env (path_join base sub) w = (Inr (), w1) \<and>
            ((r = Inr True \<and> w' = w1 \<and> path_exists w1 (path_join (path_join base sub) filename)) \<or>
             (\<not> path_exists w1 (path_join (path_join base sub) filename) \<and>
              calls w' = calls w @ [RetrieveMediaFile filename] \<and> dirs w' = dirs w1 \<and>
              ((r = Inr False \<and> files w' = files w) \<or>
               (\<exists>result data n.
                   host_media env (calls w) filename = Some (Some result) \<and>
                   b64decode env result = Some data \<and> r = Inr False \<and> n < length data \<and>
                   files w' = (files w)(path_join (path_join base sub) filename \<mapsto> take n data)) \<or>
               (\<exists>data. r = Inr True \<and>
                   files w' = (files w)(path_join (path_join base sub) filename \<mapsto> data))))))"
proof (cases "makedirs env (path_join base sub) w")
  case (Pair m w1)
  show ?thesis
  proof (cases m)
    case (Inl e)
    with Pair assms makedirs_raise [of env "path_join base sub" w e w1] show ?thesis
      by (simp add: retrieve_media_from_anki_def)
  next
    case (Inr u)
    with Pair have mk: "makedirs env (path_join base sub) w = (Inr (), w1)" by simp
    note ok = makedirs_ok [OF mk]
    show ?thesis
    proof (cases "path_exists w1 (path_join (path_join base sub) filename)")
      case True
      with mk assms show ?thesis by (simp add: retrieve_media_from_anki_def)
    next
      case False
      with mk assms ok show ?thesis
        by (auto simp: retrieve_media_from_anki_def request_retrieveMediaFile_def open_w_def
              write_bytes_def Let_def
            split: option.splits if_splits prod.splits sum.splits)
    qed
  qed
qed


lemma retrieve_cached:
  "path_join base sub \<in> dirs w \<Longrightarrow> path_exists w (path_join (path_join base sub) filename) \<Longrightarrow>
     retrieve_media_from_anki env filename sub base w = (Inr True, w)"
  by (simp add: retrieve_media_from_anki_def makedirs_existing)

lemma retrieve_success_cached:
  assumes "retrieve_media_from_anki env filename sub base w = (Inr True, w')"
  shows "path_join base sub \<in> dirs w' \<and> path_exists w' (path_join (path_join base sub) filename)"
proof -
  from retrieve_cases [OF assms] obtain w1 where
    mk: "makedirs env (path_join base sub) w = (Inr (), w1)" and
    c: "(w' = w1 \<and> path_exists w1 (path_join (path_join base sub) filename)) \<or>
        (dirs w' = dirs w1 \<and>
         (\<exists>data. files w' = (files w)(path_join (path_join base sub) filename \<mapsto> data)))"
    by auto
  from makedirs_ok [OF mk] c show ?thesis by (auto simp: path_exists_def)
qed

lemma retrieve_no_raise:
  assumes "path_join base sub \<in> dirs w"
  shows "\<exists>ok w'. retrieve_media_from_anki env filename sub base w = (Inr ok, w') \<and>
           dirs w' = dirs w"
proof -
  obtain r w' where rw: "retrieve_media_from_anki env filename sub base w = (r, w')"
    by (cases "retrieve_media_from_anki env filename sub base w")
  from retrieve_cases [OF rw] assms show ?thesis
    unfolding rw by (auto simp: makedirs_existing)
qed

lemma demo_fetch:
  "retrieve_media_from_anki demo_env (ustr ''a.png'') (ustr ''algebra'') (ustr ''/out/media'') demo_world
     = (Inr True,
        \<lparr>dirs = {ustr ''/out'', ustr ''/out/media'', ustr ''/out/media/algebra''},
         files = [ustr ''/out/media/algebra/a.png'' \<mapsto> [65, 66, 67]],
         calls = [RetrieveMediaFile (ustr ''a.png'')]\<rparr>)"
  by (simp add: retrieve_media_from_anki_def makedirs_def path_join_def demo_world_def demo_env_def
      path_ancestors_def path_exists_def request_retrieveMediaFile_def open_w_def write_bytes_def
      upt_rec  insert_commute)




text \<open>
  C2, as the source has it. One fetch sends at most one request. After a fetch that
  returned success, a second fetch of the same file name into the same directory returns
  success and changes nothing: it sends no request. When the file is there (and its
  directory), the fetch returns success at once, with no request and no change.
\<close>

theorem fetch_twice_calls:
  assumes "retrieve_media_from_anki env filename sub base w = (r1, w1)"
    and "retrieve_media_from_anki env filename sub base w1 = (r2, w2)"
  shows "length (calls w1) \<le> length (calls w) + 1 \<and>
         (r1 = Inr True \<longrightarrow> r2 = Inr True \<and> w2 = w1) \<and>
         (path_exists w (path_join (path_join base sub) filename) \<and> path_join base sub \<in> dirs w \<longrightarrow>
            r1 = Inr True \<and> w1 = w)"
proof -
  have one: "length (calls w1) \<le> length (calls w) + 1"
    using retrieve_cases [OF assms(1)] by (auto dest: makedirs_ok)
  have again: "r2 = Inr True \<and> w2 = w1" if "r1 = Inr True"
  proof -
    from that assms(1) have "retrieve_media_from_anki env filename sub base w = (Inr True, w1)"
      by simp
    then have "path_join base sub \<in> dirs w1 \<and>
        path_exists w1 (path_join (path_join base sub) filename)"
      by (rule retrieve_success_cached)
    then have "retrieve_media_from_anki env filename sub base w1 = (Inr True, w1)"
      by (simp add: retrieve_cached)
    with assms(2) show ?thesis by simp
  qed
  have cached: "r1 = Inr True \<and> w1 = w"
    if "path_exists w (path_join (path_join base sub) filename) \<and> path_join base sub \<in> dirs w"
  proof -
    from that have "retrieve_media_from_anki env filename sub base w = (Inr True, w)"
      by (simp add: retrieve_cached)
    with assms(1) show ?thesis by simp
  qed
  from one again cached show ?thesis by blast
qed

theorem fetch_twice_calls_witness:
  "retrieve_media_from_anki demo_env (ustr ''a.png'') (ustr ''algebra'') (ustr ''/out/media'') demo_world
     = (Inr True,
        \<lparr>dirs = {ustr ''/out'', ustr ''/out/media'', ustr ''/out/media/algebra''},
         files = [ustr ''/out/media/algebra/a.png'' \<mapsto> [65, 66, 67]],
         calls = [RetrieveMediaFile (ustr ''a.png'')]\<rparr>) \<and>
   retrieve_media_from_anki demo_env (ustr ''a.png'') (ustr ''algebra'') (ustr ''/out/media'')
       \<lparr>dirs = {ustr ''/out'', ustr ''/out/media'', ustr ''/out/media/algebra''},
        files = [ustr ''/out/media/algebra/a.png'' \<mapsto> [65, 66, 67]],
        calls = [RetrieveMediaFile (ustr ''a.png'')]\<rparr>
     = (Inr True,
        \<lparr>dirs = {ustr ''/out'', ustr ''/out/media'', ustr ''/out/media/algebra''},
         files = [ustr ''/out/media/algebra/a.png'' \<mapsto> [65, 66, 67]],
         calls = [RetrieveMediaFile (ustr ''a.png'')]\<rparr>)"
proof -
  let ?w1 = "\<lparr>dirs = {ustr ''/out'', ustr ''/out/media'', ustr ''/out/media/algebra''},
         files = [ustr ''/out/media/algebra/a.png'' \<mapsto> [65, 66, 67]],
         calls = [RetrieveMediaFile (ustr ''a.png'')]\<rparr>"
  obtain r2 w2 where second:
    "retrieve_media_from_anki demo_env (ustr ''a.png'') (ustr ''algebra'') (ustr ''/out/media'') ?w1
       = (r2, w2)"
    by (cases "retrieve_media_from_anki demo_env (ustr ''a.png'') (ustr ''algebra'')
                 (ustr ''/out/media'') ?w1")
  have ex: "path_exists ?w1 (path_join (path_join (ustr ''/out/media'') (ustr ''algebra'')) (ustr ''a.png''))
            \<and> path_join (ustr ''/out/media'') (ustr ''algebra'') \<in> dirs ?w1"
    by (simp add: path_exists_def path_join_def)
  from fetch_twice_calls [OF demo_fetch second]
  have "r2 = Inr True \<and> w2 = ?w1" by blast
  with second have cached:
    "retrieve_media_from_anki demo_env (ustr ''a.png'') (ustr ''algebra'') (ustr ''/out/media'') ?w1
       = (Inr True, ?w1)"
    by simp
  from fetch_twice_calls [OF cached cached] ex cached demo_fetch show ?thesis by simp
qed

text \<open>
  C2, as the specification has it, fails when the first fetch fails: with a host that
  cannot be reached both fetches return failure, and the log holds two requests for the
  same file.
\<close>

theorem fetch_twice_counterexample:
  "fst (fetch_twice offline_env (ustr ''a.png'') (ustr ''algebra'') (ustr ''/out/media'') demo_world)
     = Inr False \<and>
   fst (snd (fetch_twice offline_env (ustr ''a.png'') (ustr ''algebra'') (ustr ''/out/media'') demo_world))
     = Inr False \<and>
   calls (snd (snd (fetch_twice offline_env (ustr ''a.png'') (ustr ''algebra'') (ustr ''/out/media'')
       demo_world)))
     = [RetrieveMediaFile (ustr ''a.png''), RetrieveMediaFile (ustr ''a.png'')]"
  by code_simp






section \<open>The Content Rewriter\<close>

lemma process_matches_text:
  "process_matches env sub base ms t w = (Inr t', w') \<Longrightarrow>
     t' = foldl (\<lambda>modified_text filename. rewrite_one sub filename modified_text) t ms"
proof (induction ms arbitrary: t w)
  case Nil
  then show ?case by simp
next
  case (Cons f ms)
  then show ?case
    by (auto split: prod.splits sum.splits)
qed

lemma process_matches_returns:
  "path_join base sub \<in> dirs w \<Longrightarrow>
     \<exists>w'. process_matches env sub base ms t w
            = (Inr (foldl (\<lambda>modified_text filename. rewrite_one sub filename modified_text) t ms), w')
          \<and> dirs w' = dirs w"
proof (induction ms arbitrary: t w)
  case Nil
  then show ?case by simp
next
  case (Cons f ms)
  from retrieve_no_raise [OF Cons.prems, of env f] obtain ok w1 where
    r: "retrieve_media_from_anki env f sub base w = (Inr ok, w1)" and d: "dirs w1 = dirs w"
    by blast
  from Cons.prems d have "path_join base sub \<in> dirs w1" by simp
  from Cons.IH [OF this, of "rewrite_one sub f t"] r d show ?case by auto
qed

lemma replace_from_join_split:
  "old \<noteq> [] \<Longrightarrow> cur @ replace_from old new s = py_join new (split_from old cur s)"
proof (induction old cur s rule: split_from.induct)
  case (1 sep cur)
  then show ?case by simp
next
  case (2 sep cur c cs)
  show ?case
  proof (cases "prefix sep (c # cs)")
    case True
    with "2.prems" "2.IH"(1) show ?thesis
      by (simp add: py_join_Cons split_from_nonempty)
  next
    case False
    with "2.prems" "2.IH"(2) show ?thesis by simp
  qed
qed

lemma py_replace_join_split:
  "old \<noteq> [] \<Longrightarrow> py_replace old new s = py_join new (py_split old s)"
  using replace_from_join_split [of old "[]" new s] by (simp add: py_replace_def py_split_def)

text \<open>
  C5, as the source has it. Whenever the rewriter returns, its text is \<open>rewritten_text\<close>,
  which depends on the fragment and the subfolder alone: what the fetches did makes no
  difference. It returns whenever the media directory of the deck exists. A fragment
  without a match is returned unchanged, with the world unchanged. For one file name the
  text is cut at every occurrence of \<open>src="name"\<close> and joined with
  \<open>src="../media/sub/name"\<close>, then cut at every occurrence of \<open>src='name'\<close> and joined
  with \<open>src='../media/sub/name'\<close>: the quote character is kept.
\<close>

theorem rewrite_fragment:
  "(process_media_in_text env source_text sub base w = (Inr modified_text, w') \<longrightarrow>
      modified_text = rewritten_text env sub source_text) \<and>
   (path_join base sub \<in> dirs w \<longrightarrow>
      (\<exists>w'. process_media_in_text env source_text sub base w
               = (Inr (rewritten_text env sub source_text), w'))) \<and>
   (findall_images env source_text = [] \<longrightarrow>
      process_media_in_text env source_text sub base w = (Inr source_text, w)) \<and>
   rewrite_one sub filename t =
     py_join (src_attr SQ (ustr ''../media/'' @ sub @ ustr ''/'' @ filename))
       (py_split (src_attr SQ filename)
          (py_join (src_attr DQ (ustr ''../media/'' @ sub @ ustr ''/'' @ filename))
             (py_split (src_attr DQ filename) t)))"
proof (intro conjI impI)
  assume "process_media_in_text env source_text sub base w = (Inr modified_text, w')"
  then show "modified_text = rewritten_text env sub source_text"
    unfolding process_media_in_text_def rewritten_text_def by (rule process_matches_text)
next
  assume "path_join base sub \<in> dirs w"
  from process_matches_returns [OF this, of env "findall_images env source_text" source_text]
  show "\<exists>w'. process_media_in_text env source_text sub base w
               = (Inr (rewritten_text env sub source_text), w')"
    unfolding process_media_in_text_def rewritten_text_def by blast
next
  assume "findall_images env source_text = []"
  then show "process_media_in_text env source_text sub base w = (Inr source_text, w)"
    by (simp add: process_media_in_text_def)
next
  have "src_attr DQ filename \<noteq> []" "src_attr SQ filename \<noteq> []"
    by (simp_all add: src_attr_def)
  then show "rewrite_one sub filename t =
     py_join (src_attr SQ (ustr ''../media/'' @ sub @ ustr ''/'' @ filename))
       (py_split (src_attr SQ filename)
          (py_join (src_attr DQ (ustr ''../media/'' @ sub @ ustr ''/'' @ filename))
             (py_split (src_attr DQ filename) t)))"
    by (simp add: rewrite_one_def Let_def py_replace_join_split)
qed

theorem rewrite_fragment_witness:
  "fst (process_media_in_text demo_env
          (img_tag DQ (ustr ''photo.JPG'') @ img_tag DQ (ustr ''photo.JPG'')
             @ img_tag DQ (ustr ''diagram.svg''))
          (ustr ''m'') (ustr ''/out/media'')
          \<lparr>dirs = {ustr ''/out/media/m''}, files = Map.empty, calls = []\<rparr>)
     = Inr (img_tag DQ (ustr ''../media/m/photo.JPG'') @ img_tag DQ (ustr ''../media/m/photo.JPG'')
              @ img_tag DQ (ustr ''../media/m/diagram.svg'')) \<and>
   rewritten_text demo_env (ustr ''m'')
       (img_tag DQ (ustr ''photo.JPG'') @ img_tag DQ (ustr ''photo.JPG'')
          @ img_tag DQ (ustr ''diagram.svg''))
     = img_tag DQ (ustr ''../media/m/photo.JPG'') @ img_tag DQ (ustr ''../media/m/photo.JPG'')
         @ img_tag DQ (ustr ''../media/m/diagram.svg'') \<and>
   calls (snd (process_media_in_text demo_env
          (img_tag DQ (ustr ''photo.JPG'') @ img_tag DQ (ustr ''photo.JPG'')
             @ img_tag DQ (ustr ''diagram.svg''))
          (ustr ''m'') (ustr ''/out/media'')
          \<lparr>dirs = {ustr ''/out/media/m''}, files = Map.empty, calls = []\<rparr>))
     = [RetrieveMediaFile (ustr ''photo.JPG''), RetrieveMediaFile (ustr ''diagram.svg'')] \<and>
   process_media_in_text demo_env (ustr ''<b>Q</b>'') (ustr ''m'') (ustr ''/out/media'') demo_world
     = (Inr (ustr ''<b>Q</b>''), demo_world)"
proof -
  let ?text = "img_tag DQ (ustr ''photo.JPG'') @ img_tag DQ (ustr ''photo.JPG'')
                 @ img_tag DQ (ustr ''diagram.svg'')"
  let ?new = "img_tag DQ (ustr ''../media/m/photo.JPG'') @ img_tag DQ (ustr ''../media/m/photo.JPG'')
                @ img_tag DQ (ustr ''../media/m/diagram.svg'')"
  let ?w = "\<lparr>dirs = {ustr ''/out/media/m''}, files = Map.empty, calls = []\<rparr>"
  have run: "fst (process_media_in_text demo_env ?text (ustr ''m'') (ustr ''/out/media'') ?w) = Inr ?new"
    by code_simp
  have log: "calls (snd (process_media_in_text demo_env ?text (ustr ''m'') (ustr ''/out/media'') ?w))
     = [RetrieveMediaFile (ustr ''photo.JPG''), RetrieveMediaFile (ustr ''diagram.svg'')]"
    by code_simp
  obtain w' where p:
    "process_media_in_text demo_env ?text (ustr ''m'') (ustr ''/out/media'') ?w = (Inr ?new, w')"
    using run by (cases "process_media_in_text demo_env ?text (ustr ''m'') (ustr ''/out/media'') ?w") auto
  have dir: "path_join (ustr ''/out/media'') (ustr ''m'') \<in> dirs ?w"
    by (simp add: path_join_def)
  have none: "findall_images demo_env (ustr ''<b>Q</b>'') = []"
    by code_simp
  from rewrite_fragment [of demo_env ?text "ustr ''m''" "ustr ''/out/media''" ?w ?new w'] p dir
  have "?new = rewritten_text demo_env (ustr ''m'') ?text" by blast
  moreover
  from rewrite_fragment [of demo_env "ustr ''<b>Q</b>''" "ustr ''m''" "ustr ''/out/media''" demo_world] none
  have "process_media_in_text demo_env (ustr ''<b>Q</b>'') (ustr ''m'') (ustr ''/out/media'') demo_world
     = (Inr (ustr ''<b>Q</b>''), demo_world)" by blast
  ultimately show ?thesis using run log by simp
qed

text \<open>
  C5, as the specification has it, fails in two ways. An attribute in single quotes is
  rewritten in single quotes, not in double quotes. And when one matched name is the new
  path of another (\<open>a.png\<close> and \<open>../media/m/a.png\<close>), the occurrence of the first is
  rewritten a second time, so it does not end as \<open>src="../media/m/a.png"\<close>.
\<close>

theorem rewrite_fragment_counterexample:
  "fst (process_media_in_text demo_env (img_tag SQ (ustr ''a.png'')) (ustr ''m'') (ustr ''/out/media'')
          demo_world)
     = Inr (img_tag SQ (ustr ''../media/m/a.png'')) \<and>
   img_tag SQ (ustr ''../media/m/a.png'') \<noteq> img_tag DQ (ustr ''../media/m/a.png'') \<and>
   fst (process_media_in_text demo_env
          (img_tag DQ (ustr ''a.png'') @ img_tag DQ (ustr ''../media/m/a.png''))
          (ustr ''m'') (ustr ''/out/media'') demo_world)
     = Inr (img_tag DQ (ustr ''../media/m/../media/m/a.png'')
            @ img_tag DQ (ustr ''../media/m/../media/m/a.png''))"
  by code_simp


section \<open>The Deck Exporter\<close>

lemmas run_defs =
  export_deck_def gui_export_deck_def request_findNotes_def request_notesInfo_def
  request_deckNames_def request_retrieveMediaFile_def export_notes_def makedirs_def open_w_def
  write_bytes_def write_text_def close_text_def csv_names_def csv_path_of_def py_split_def slugify_def
  encode_ascii_ignore_def slug_keep_def is_word_def is_space_def is_dash_space_def py_strip_def
  ascii_lower_def path_join_def path_ancestors_def path_exists_def note_row_def
  process_media_in_text_def retrieve_media_from_anki_def rewrite_one_def src_attr_def
  py_replace_def has_image_ext_def ends_with_ext_def image_extensions_def ieq_def is_quote_def
  csv_writerow_def csv_field_def csv_needs_quotes_def utf8_char_def BOM_UTF8_def
  media_subfolder_of_def deck_query_def demo_env_def demo_notes_def nfkd_demo_def demo_world_def
  Let_def upt_rec img_tag_def broken_env_def empty_note_def offline_env_def
  blocked_category_world_def blocked_csv_world_def stale_world_def main_def gui_do_export_def
  select_decks_def row_of_def rewritten_text_def algebra_row1_def algebra_row2_def
  no_notes_env_def small_disk_env_def blocked_media_world_def

lemma media_frame_refl: "media_frame w w"
  by (simp add: media_frame_def)

lemma media_frame_trans: "media_frame w w1 \<Longrightarrow> media_frame w1 w2 \<Longrightarrow> media_frame w w2"
  by (auto simp: media_frame_def)

lemma list_all2_last:
  "list_all2 P xs ys \<Longrightarrow> xs \<noteq> [] \<Longrightarrow> P (last xs) (last ys)"
  by (induction rule: list_all2_induct) (auto simp: list_all2_Nil)

lemma ieq_not_v: "ieq env p c \<Longrightarrow> p \<noteq> 118 \<Longrightarrow> c \<noteq> 118"
  by (auto simp: ieq_def ascii_lower_def split: if_splits)

lemma ends_with_ext_last:
  assumes "ends_with_ext env body ext" and "ext \<noteq> []" and "last ext \<noteq> 118"
  shows "body \<noteq> [] \<and> last body \<noteq> 118"
proof -
  let ?suffix = "drop (length body - (length ext + 1)) body"
  from assms(1) have len: "length ext + 1 < length body"
    and all: "list_all2 (ieq env) ext (tl ?suffix)"
    by (auto simp: ends_with_ext_def Let_def)
  have l: "length (tl ?suffix) = length ext" using list_all2_lengthD [OF all] by simp
  have ne: "tl ?suffix \<noteq> []"
  proof
    assume "tl ?suffix = []"
    then have "length (tl ?suffix) = 0" by (simp only: list.size)
    with l assms(2) show False by simp
  qed
  have "last (tl ?suffix) = last ?suffix" using ne by (simp add: last_tl)
  also have "\<dots> = last body" using len by (simp add: last_drop)
  finally have "ieq env (last ext) (last body)"
    using list_all2_last [OF all assms(2)] by simp
  with assms(3) len show ?thesis by (auto dest: ieq_not_v)
qed

lemma has_image_ext_last: "has_image_ext env body \<Longrightarrow> body \<noteq> [] \<and> last body \<noteq> 118"
  unfolding has_image_ext_def image_extensions_def
  by (auto dest!: ends_with_ext_last)

lemma match_image_last: "match_image env s = Some body \<Longrightarrow> body \<noteq> [] \<and> last body \<noteq> 118"
  by (induction env s rule: match_image.induct)
     (auto simp: Let_def split: if_splits dest: has_image_ext_last)

lemma findall_images_last:
  "f \<in> set (findall_images env s) \<Longrightarrow> f \<noteq> [] \<and> last f \<noteq> 118"
proof (induction env s rule: findall_images.induct)
  case (1 env)
  then show ?case by simp
next
  case (2 env c cs)
  show ?case
  proof (cases "match_image env (c # cs)")
    case None
    with "2.prems" "2.IH"(1) show ?thesis by simp
  next
    case (Some body)
    with "2.prems" have "f = body \<or> f \<in> set (findall_images env (drop (5 + length body) cs))"
      by simp
    then show ?thesis
      using Some "2.IH"(2) [OF Some] match_image_last [OF Some] by auto
  qed
qed

lemma last_path_join: "b \<noteq> [] \<Longrightarrow> last (path_join a b) = last b"
  by (simp add: path_join_def)

lemma retrieve_frame:
  assumes "retrieve_media_from_anki env f sub base w = (r, w')" and "f \<noteq> []" and "last f \<noteq> 118"
  shows "media_frame w w'"
proof -
  have tp: "last (path_join (path_join base sub) f) \<noteq> 118"
    using assms(2,3) by (simp add: last_path_join)
  from retrieve_cases [OF assms(1)] show ?thesis
  proof (elim disjE exE conjE)
    assume "w' = w"
    then show ?thesis by (simp add: media_frame_refl)
  next
    fix w1 assume "makedirs env (path_join base sub) w = (Inr (), w1)" "w' = w1"
    then show ?thesis using makedirs_ok by (auto simp: media_frame_def)
  next
    fix w1 assume "makedirs env (path_join base sub) w = (Inr (), w1)" "dirs w' = dirs w1"
      "files w' = files w"
    then show ?thesis using makedirs_ok [of env "path_join base sub" w "()" w1]
      by (auto simp: media_frame_def)
  next
    fix w1 data and n :: nat
    assume "makedirs env (path_join base sub) w = (Inr (), w1)" "dirs w' = dirs w1"
      "files w' = (files w)(path_join (path_join base sub) f \<mapsto> take n data)"
    then show ?thesis using makedirs_ok [of env "path_join base sub" w "()" w1] tp
      by (auto simp: media_frame_def)
  next
    fix w1 data assume "makedirs env (path_join base sub) w = (Inr (), w1)" "dirs w' = dirs w1"
      "files w' = (files w)(path_join (path_join base sub) f \<mapsto> data)"
    then show ?thesis using makedirs_ok [of env "path_join base sub" w "()" w1] tp
      by (auto simp: media_frame_def)
  qed
qed

lemma process_matches_frame:
  "process_matches env sub base ms t w = (r, w') \<Longrightarrow> \<forall>f\<in>set ms. f \<noteq> [] \<and> last f \<noteq> 118 \<Longrightarrow>
     media_frame w w'"
proof (induction ms arbitrary: t w)
  case Nil
  then show ?case by (simp add: media_frame_refl)
next
  case (Cons f ms)
  obtain r1 w1 where r1: "retrieve_media_from_anki env f sub base w = (r1, w1)"
    by (cases "retrieve_media_from_anki env f sub base w")
  from Cons.prems(2) have f: "f \<noteq> []" "last f \<noteq> 118" by auto
  note fr = retrieve_frame [OF r1 f]
  show ?case
  proof (cases r1)
    case (Inl e)
    with Cons.prems(1) r1 fr show ?thesis by simp
  next
    case (Inr ok)
    with Cons.prems(1) r1 have
      "process_matches env sub base ms (rewrite_one sub f t) w1 = (r, w')" by simp
    from Cons.IH [OF this] Cons.prems(2) fr show ?thesis
      by (auto intro: media_frame_trans)
  qed
qed

lemma process_media_frame:
  "process_media_in_text env t sub base w = (r, w') \<Longrightarrow> media_frame w w'"
  unfolding process_media_in_text_def
  by (erule process_matches_frame) (auto dest: findall_images_last)

lemma process_media_text:
  "process_media_in_text env t sub base w = (Inr t', w') \<Longrightarrow> t' = rewritten_text env sub t"
  unfolding process_media_in_text_def rewritten_text_def by (rule process_matches_text)






lemma field_values_result:
  "field_values env sub base raws acc w = (r, w') \<Longrightarrow>
     media_frame w w' \<and>
     (\<forall>vals. r = Inr vals \<longrightarrow>
        vals = acc @ map (\<lambda>raw_value. rewritten_text env sub (unescape env raw_value)) raws)"
proof (induction raws arbitrary: acc w)
  case Nil
  then show ?case by (auto simp: media_frame_refl)
next
  case (Cons v raws)
  obtain r1 w1 where p: "process_media_in_text env (unescape env v) sub base w = (r1, w1)"
    by (cases "process_media_in_text env (unescape env v) sub base w")
  note fr = process_media_frame [OF p]
  show ?case
  proof (cases r1)
    case (Inl e)
    with Cons.prems p fr show ?thesis by auto
  next
    case (Inr m)
    with p have m: "m = rewritten_text env sub (unescape env v)"
      by (auto dest: process_media_text)
    from Inr Cons.prems p have "field_values env sub base raws (acc @ [m]) w1 = (r, w')" by simp
    from Cons.IH [OF this] fr m show ?thesis by (auto intro: media_frame_trans)
  qed
qed


lemma note_row_result:
  assumes "note_row env sub base n w = (r, w')"
  shows "media_frame w w' \<and> (\<forall>row. r = Inr row \<longrightarrow> row_of env sub n = Some row)"
proof (cases "note_fields n")
  case None
  with assms show ?thesis by (auto simp: note_row_def media_frame_refl)
next
  case (Some fs)
  obtain r1 w1 where fv: "field_values env sub base (map snd fs) [] w = (r1, w1)"
    by (cases "field_values env sub base (map snd fs) [] w")
  from field_values_result [OF fv] have fr: "media_frame w w1"
    and vals: "\<forall>vals. r1 = Inr vals \<longrightarrow>
        vals = map (\<lambda>raw_value. rewritten_text env sub (unescape env raw_value)) (map snd fs)"
    by auto
  have m: "map (\<lambda>raw_value. rewritten_text env sub (unescape env raw_value)) (map snd fs)
         = map (\<lambda>(name, raw_value). rewritten_text env sub (unescape env raw_value)) fs"
    by (induction fs) auto
  show ?thesis
    using assms Some fv fr vals m
    by (auto simp: note_row_def row_of_def split: sum.splits option.splits)
qed


lemma write_bytes_result:
  assumes "write_bytes env p bs w = (r, w')" and "files w p = Some disk"
  shows "dirs w' = dirs w \<and> calls w' = calls w \<and> (\<forall>q. q \<noteq> p \<longrightarrow> files w' q = files w q) \<and>
         (\<forall>u. r = Inr u \<longrightarrow> files w' p = Some (disk @ bs)) \<and>
         (\<forall>e. r = Inl e \<longrightarrow> os_store env w p bs < length bs \<and>
                files w' p = Some (disk @ take (os_store env w p bs) bs))"
  using assms by (auto simp: write_bytes_def Let_def split: if_splits)



lemma take_take_lt: "n < length (take f xs) \<Longrightarrow> take n (take f xs) = take n xs"
  by (auto simp: min_def split: if_splits)

lemma take_drop_length_take: "take f xs @ drop (length (take f xs)) xs = xs"
  by (cases "f \<le> length xs") (simp_all add: min_def)

lemma write_text_unfold:
  assumes "utf8_encode text = Some bs"
    and "buffer = pending @ (if first then BOM_UTF8 else []) @ bs"
    and "handed = take (flush_now env buffer) buffer"
  shows "write_text env p first pending text w =
           (case write_bytes env p handed w of
              (Inl e, w1) \<Rightarrow> (Inl e, drop (os_store env w p handed) buffer, w1)
            | (Inr u, w1) \<Rightarrow> (Inr (), drop (length handed) buffer, w1))"
  unfolding write_text_def Let_def assms(1) option.case assms(2,3) ..

lemma write_text_result:
  assumes "write_text env p first pending text w = (r, pending', w')" and "files w p = Some disk"
  shows "dirs w' = dirs w \<and> calls w' = calls w \<and> (\<forall>q. q \<noteq> p \<longrightarrow> files w' q = files w q) \<and>
         (utf8_encode text = None \<longrightarrow> r = Inl UnicodeEncodeError \<and> pending' = pending \<and> w' = w) \<and>
         (\<forall>bs. utf8_encode text = Some bs \<longrightarrow>
            (\<exists>disk'. files w' p = Some disk' \<and>
               disk' @ pending' = disk @ pending @ (if first then BOM_UTF8 else []) @ bs))"
proof (cases "utf8_encode text")
  case None
  with assms show ?thesis by (simp add: write_text_def)
next
  case (Some bs)
  define buffer where "buffer = pending @ (if first then BOM_UTF8 else []) @ bs"
  define handed where "handed = take (flush_now env buffer) buffer"
  note unfold = write_text_unfold [OF Some buffer_def handed_def, of p w]
  obtain rb wb where wb: "write_bytes env p handed w = (rb, wb)"
    by (cases "write_bytes env p handed w")
  note res = write_bytes_result [OF wb assms(2)]
  have "\<exists>disk'. files w' p = Some disk' \<and> disk' @ pending' = disk @ buffer"
  proof (cases rb)
    case (Inl e)
    with assms(1) unfold wb have w': "w' = wb" and
      p': "pending' = drop (os_store env w p handed) buffer"
      by simp_all
    from res Inl have lt: "os_store env w p handed < length handed" and
      f: "files wb p = Some (disk @ take (os_store env w p handed) handed)"
      by auto
    from lt have "take (os_store env w p handed) handed = take (os_store env w p handed) buffer"
      unfolding handed_def by (rule take_take_lt)
    with f w' p' show ?thesis by simp
  next
    case (Inr u)
    with assms(1) unfold wb have w': "w' = wb" and p': "pending' = drop (length handed) buffer"
      by simp_all
    from res Inr have f: "files wb p = Some (disk @ handed)" by auto
    have "handed @ drop (length handed) buffer = buffer"
      unfolding handed_def by (rule take_drop_length_take)
    with f w' p' show ?thesis by simp
  qed
  moreover have "w' = wb" using assms(1) unfold wb by (cases rb) simp_all
  ultimately show ?thesis using res Some unfolding buffer_def by simp
qed

lemma write_notes_result:
  assumes "write_notes env sub base p first pending count ns w = (r, pending', w')"
    and "last p = 118" and "files w p = Some disk"
  shows "\<exists>k bs disk'. k \<le> length ns \<and> map (note_bytes env sub) (take k ns) = map Some bs \<and>
           files w' p = Some disk' \<and>
           disk' @ pending' = disk @ pending @ (if first \<and> 0 < k then BOM_UTF8 else []) @ concat bs \<and>
           (\<forall>c. r = Inr c \<longrightarrow> k = length ns \<and> c = count + length ns)"
  using assms
proof (induction ns arbitrary: first pending count w disk)
  case Nil
  then show ?case by (intro exI [of _ 0] exI [of _ "[]"] exI [of _ disk]) auto
next
  case (Cons n ns)
  obtain r1 w1 where nr: "note_row env sub base n w = (r1, w1)"
    by (cases "note_row env sub base n w")
  from note_row_result [OF nr] Cons.prems(2,3)
  have f1: "files w1 p = Some disk" and row: "\<forall>row. r1 = Inr row \<longrightarrow> row_of env sub n = Some row"
    by (auto simp: media_frame_def)
  show ?case
  proof (cases r1)
    case (Inl e)
    with Cons.prems(1) nr have "r = Inl e" "w' = w1" "pending' = pending" by auto
    with f1 show ?thesis by (intro exI [of _ 0] exI [of _ "[]"] exI [of _ disk]) auto
  next
    case (Inr fields_values)
    with row have ro: "row_of env sub n = Some fields_values" by simp
    obtain r2 pending2 w2 where
      wt: "write_text env p first pending (csv_writerow fields_values) w1 = (r2, pending2, w2)"
      by (cases "write_text env p first pending (csv_writerow fields_values) w1") auto
    note res = write_text_result [OF wt f1]
    show ?thesis
    proof (cases "utf8_encode (csv_writerow fields_values)")
      case None
      with res have "r2 = Inl UnicodeEncodeError" "pending2 = pending" "w2 = w1" by auto
      with Cons.prems(1) nr Inr wt have "r = Inl UnicodeEncodeError" "w' = w1" "pending' = pending"
        by auto
      with f1 show ?thesis by (intro exI [of _ 0] exI [of _ "[]"] exI [of _ disk]) auto
    next
      case (Some b)
      with res obtain disk2 where f2: "files w2 p = Some disk2" and
        inv2: "disk2 @ pending2 = disk @ pending @ (if first then BOM_UTF8 else []) @ b"
        by auto
      have nb: "note_bytes env sub n = Some b" using ro Some by (simp add: note_bytes_def)
      show ?thesis
      proof (cases r2)
        case (Inl e)
        with Cons.prems(1) nr \<open>r1 = Inr fields_values\<close> wt
        have "r = Inl e" "w' = w2" "pending' = pending2" by auto
        with f2 inv2 nb show ?thesis
          by (intro exI [of _ 1] exI [of _ "[b]"] exI [of _ disk2]) auto
      next
        case (Inr u)
        with Cons.prems(1) nr \<open>r1 = Inr fields_values\<close> wt
        have rest: "write_notes env sub base p False pending2 (count + 1) ns w2 = (r, pending', w')"
          by simp
        from Cons.IH [OF rest Cons.prems(2) f2] obtain k bs disk' where
          k: "k \<le> length ns" and m: "map (note_bytes env sub) (take k ns) = map Some bs" and
          f: "files w' p = Some disk'" and
          inv: "disk' @ pending' = disk2 @ pending2 @ concat bs" and
          ok: "\<forall>c. r = Inr c \<longrightarrow> k = length ns \<and> c = count + 1 + length ns"
          by auto
        from inv inv2 have "disk' @ pending'
              = disk @ pending @ (if first then BOM_UTF8 else []) @ b @ concat bs"
          by (metis append.assoc)
        with k m f ok nb show ?thesis
          by (intro exI [of _ "Suc k"] exI [of _ "b # bs"] exI [of _ disk']) auto
      qed
    qed
  qed
qed







lemma utf8_encode_append:
  "utf8_encode (xs @ ys) =
     (case utf8_encode xs of
        None \<Rightarrow> None
      | Some a \<Rightarrow> (case utf8_encode ys of None \<Rightarrow> None | Some b \<Rightarrow> Some (a @ b)))"
  by (induction xs) (auto split: option.splits)

lemma note_bytes_rows:
  "map (note_bytes env sub) ns = map Some bs \<Longrightarrow>
     \<exists>rows. map (row_of env sub) ns = map Some rows \<and>
            utf8_encode (concat (map csv_writerow rows)) = Some (concat bs)"
proof (induction ns arbitrary: bs)
  case Nil
  then show ?case by simp
next
  case (Cons n ns)
  from Cons.prems obtain b bs' where bs: "bs = b # bs'" and nb: "note_bytes env sub n = Some b"
    and rest: "map (note_bytes env sub) ns = map Some bs'"
    by (cases bs) auto
  from nb obtain row where row: "row_of env sub n = Some row"
    and enc: "utf8_encode (csv_writerow row) = Some b"
    by (auto simp: note_bytes_def split: option.splits)
  from Cons.IH [OF rest] obtain rows where
    rows: "map (row_of env sub) ns = map Some rows" and
    e: "utf8_encode (concat (map csv_writerow rows)) = Some (concat bs')"
    by blast
  show ?case
    using row enc rows e bs
    by (intro exI [of _ "row # rows"]) (simp add: utf8_encode_append)
qed

lemma note_bytes_all:
  "\<forall>n\<in>set ns. note_bytes env sub n \<noteq> None \<Longrightarrow> \<exists>bs. map (note_bytes env sub) ns = map Some bs"
proof (induction ns)
  case Nil
  then show ?case by simp
next
  case (Cons n ns)
  then obtain b bs where "note_bytes env sub n = Some b" "map (note_bytes env sub) ns = map Some bs"
    by auto
  then show ?case by (intro exI [of _ "b # bs"]) simp
qed

lemma last_csv_path: "last (csv_path_of env out deck_name) = 118"
proof -
  have "snd (csv_names env deck_name) \<noteq> [] \<and> last (snd (csv_names env deck_name)) = 118"
    by (simp add: csv_names_def Let_def)
  then show ?thesis by (simp add: csv_path_of_def last_path_join)
qed

lemma open_w_ok: "open_w env p w = (Inr u, w') \<Longrightarrow> files w' p = Some [] \<and> dirs w' = dirs w"
  by (auto simp: open_w_def split: if_splits)

lemma open_w_raise: "open_w env p w = (Inl e, w') \<Longrightarrow> w' = w"
  by (auto simp: open_w_def split: if_splits)

text \<open>The result of \<open>export_deck\<close>'s \<open>try\<close>, from how the loop and the close of the
  file ended.\<close>

lemma export_notes_run:
  assumes "makedirs env (path_join out (fst (csv_names env deck_name))) w = (Inr (), w1)"
    and "open_w env (csv_path_of env out deck_name) w1 = (Inr (), w2)"
    and "write_notes env (media_subfolder_of env deck_name) media
           (csv_path_of env out deck_name) True [] 0 ns w2 = (rl, pending, w3)"
    and "close_text env (csv_path_of env out deck_name) pending w3 = (rc, w')"
  shows "export_notes env deck_name out media ns w
           = (case rc of Inl e \<Rightarrow> Inr 0 | Inr u \<Rightarrow> (case rl of Inl e \<Rightarrow> Inr 0 | Inr c \<Rightarrow> Inr c), w')"
  using assms
  by (simp add: export_notes_def csv_path_of_def Let_def split: sum.splits)


lemma close_text_result:
  assumes "close_text env p pending w = (rc, w')" and "files w p = Some disk"
  shows "dirs w' = dirs w \<and> calls w' = calls w \<and> (\<forall>q. q \<noteq> p \<longrightarrow> files w' q = files w q) \<and>
         (\<exists>content. files w' p = Some content \<and> prefix content (disk @ pending) \<and>
            (\<forall>u. rc = Inr u \<longrightarrow> content = disk @ pending))"
proof -
  from assms(1) have wb: "write_bytes env p pending w = (rc, w')" by (simp add: close_text_def)
  note res = write_bytes_result [OF wb assms(2)]
  show ?thesis
  proof (cases rc)
    case (Inl e)
    with res have "files w' p = Some (disk @ take (os_store env w p pending) pending)" by simp
    moreover have "prefix (disk @ take (os_store env w p pending) pending) (disk @ pending)"
      by (simp add: take_is_prefix)
    ultimately show ?thesis using res Inl by simp
  next
    case (Inr u)
    with res show ?thesis by simp
  qed
qed

text \<open>
  What is at the path of the CSV file when \<open>export_deck\<close> is through with a file that it
  could open: the lines of the first \<open>k\<close> notes, behind the byte-order mark if there is
  any, or a part of that from its beginning; all of it when the file could be closed, and
  then also the lines of all notes when the loop came to its end.
\<close>

lemma export_notes_file:
  assumes "open_w env (csv_path_of env out deck_name) w1 = (Inr (), w2)"
    and "write_notes env (media_subfolder_of env deck_name) media
           (csv_path_of env out deck_name) True [] 0 ns w2 = (rl, pending, w3)"
    and "close_text env (csv_path_of env out deck_name) pending w3 = (rc, w')"
  shows "\<exists>k bs content.
           k \<le> length ns \<and>
           map (note_bytes env (media_subfolder_of env deck_name)) (take k ns) = map Some bs \<and>
           files w' (csv_path_of env out deck_name) = Some content \<and>
           prefix content ((if 0 < k then BOM_UTF8 else []) @ concat bs) \<and>
           (\<forall>u. rc = Inr u \<longrightarrow> content = (if 0 < k then BOM_UTF8 else []) @ concat bs) \<and>
           (\<forall>c. rl = Inr c \<longrightarrow> k = length ns \<and> c = length ns)"
proof -
  from open_w_ok [OF assms(1)] have f2: "files w2 (csv_path_of env out deck_name) = Some []" by simp
  from write_notes_result [OF assms(2) last_csv_path f2] obtain k bs disk' where
    k: "k \<le> length ns" and
    m: "map (note_bytes env (media_subfolder_of env deck_name)) (take k ns) = map Some bs" and
    f3: "files w3 (csv_path_of env out deck_name) = Some disk'" and
    inv: "disk' @ pending = (if 0 < k then BOM_UTF8 else []) @ concat bs" and
    ok: "\<forall>c. rl = Inr c \<longrightarrow> k = length ns \<and> c = length ns"
    by auto
  from close_text_result [OF assms(3) f3] inv obtain content where
    "files w' (csv_path_of env out deck_name) = Some content"
    "prefix content ((if 0 < k then BOM_UTF8 else []) @ concat bs)"
    "\<forall>u. rc = Inr u \<longrightarrow> content = (if 0 < k then BOM_UTF8 else []) @ concat bs"
    by auto
  with k m ok show ?thesis by blast
qed



lemma csv_writerow_plain:
  "row \<noteq> [[]] \<Longrightarrow> \<not> list_ex csv_needs_quotes row \<Longrightarrow>
     csv_writerow row = py_join [59] row @ [13, 10]"
proof -
  assume a: "row \<noteq> [[]]" "\<not> list_ex csv_needs_quotes row"
  then have "map csv_field row = row"
    by (intro map_idI) (auto simp: csv_field_def list_ex_iff)
  with a show ?thesis by (simp add: csv_writerow_def)
qed

lemma export_all_zero:
  "export deck out media w = (Inr 0, w') \<Longrightarrow>
     export_all export out media (deck # decks) tot w = export_all export out media decks tot w'"
  by simp

lemma pair_fst_snd: "fst x = a \<Longrightarrow> x = (a, snd x)"
  by (cases x) simp

lemma demo_export_run:
  "\<exists>w'. export_deck demo_env (ustr ''Math::Algebra'') (ustr ''/out/decks'') (ustr ''/out/media'')
            stale_world = (Inr 2, w') \<and>
         files w' (ustr ''/out/decks/math/algebra.csv'')
           = Some (BOM_UTF8 @ algebra_row1 @ algebra_row2)"
  by (simp add: run_defs)




text \<open>
  C8, as the specification has it, fails in two ways. In the file of the deck
  \<open>Math::Algebra\<close> the first column of the first row is not the value of the note's first
  field, an image tag with the source \<open>a.png\<close>, but that tag with the source
  \<open>../media/algebra/a.png\<close>. And the command-line program's export of a deck without
  notes leaves a file of no bytes, which does not begin with the byte-order mark.
\<close>

theorem exported_csv_counterexample:
  "note_fields (hd demo_notes)
     = Some [(ustr ''Front'', img_tag DQ (ustr ''a.png'')), (ustr ''Back'', ustr ''A;B'')] \<and>
   fst (export_deck demo_env (ustr ''Math::Algebra'') (ustr ''/out/decks'') (ustr ''/out/media'')
          stale_world) = Inr 2 \<and>
   files (snd (export_deck demo_env (ustr ''Math::Algebra'') (ustr ''/out/decks'') (ustr ''/out/media'')
                 stale_world)) (ustr ''/out/decks/math/algebra.csv'')
     = Some (BOM_UTF8 @ algebra_row1 @ algebra_row2) \<and>
   utf8_encode (csv_writerow [img_tag DQ (ustr ''../media/algebra/a.png''), ustr ''A;B'',
                              ustr ''chapter1 review'']) = Some algebra_row1 \<and>
   utf8_encode (csv_writerow [img_tag DQ (ustr ''a.png''), ustr ''A;B'', ustr ''chapter1 review''])
     \<noteq> Some algebra_row1 \<and>
   fst (export_deck no_notes_env (ustr ''Math::Algebra'') (ustr ''/out/decks'') (ustr ''/out/media'')
          demo_world) = Inr 0 \<and>
   files (snd (export_deck no_notes_env (ustr ''Math::Algebra'') (ustr ''/out/decks'')
                 (ustr ''/out/media'') demo_world)) (ustr ''/out/decks/math/algebra.csv'')
     = Some []"
proof -
  have a: "note_fields (hd demo_notes)
     = Some [(ustr ''Front'', img_tag DQ (ustr ''a.png'')), (ustr ''Back'', ustr ''A;B'')]"
    by (simp add: demo_notes_def img_tag_def)
  have b: "utf8_encode (csv_writerow [img_tag DQ (ustr ''../media/algebra/a.png''), ustr ''A;B'',
                              ustr ''chapter1 review'']) = Some algebra_row1"
    by (simp add: run_defs)
  have c: "utf8_encode (csv_writerow [img_tag DQ (ustr ''a.png''), ustr ''A;B'', ustr ''chapter1 review''])
     \<noteq> Some algebra_row1"
    by (simp add: run_defs)
  have d: "\<exists>w'. export_deck no_notes_env (ustr ''Math::Algebra'') (ustr ''/out/decks'')
                  (ustr ''/out/media'') demo_world = (Inr 0, w') \<and>
                files w' (ustr ''/out/decks/math/algebra.csv'') = Some []"
    by (simp add: run_defs)
  from demo_export_run a b c d show ?thesis by auto
qed

text \<open>
  C10. The host has answered both requests, the category directory and the file could be
  made, and the export failed after that: the loop over the notes raised, or the close
  of the file did. Then \<open>export_deck\<close> returns zero (in both programs), the loop over the
  decks goes on from there with the total unchanged, and the file is still at the deck's
  CSV path. The rows of the first \<open>k\<close> notes had been handed to the file by then; the
  file holds their lines, behind the byte-order mark if there is any line, or a part of
  that from its beginning, which may end inside a line: all of it when the file could be
  closed.
\<close>

theorem failed_export_leaves_partial_file:
  assumes "request_findNotes env (deck_query deck_name) w = (Some note_ids, wa)"
    and "request_notesInfo env note_ids wa = (Some ns, wb)"
    and "makedirs env (path_join out (fst (csv_names env deck_name))) wb = (Inr (), wc)"
    and "open_w env (csv_path_of env out deck_name) wc = (Inr (), wd)"
    and "write_notes env (media_subfolder_of env deck_name) media (csv_path_of env out deck_name)
           True [] 0 ns wd = (rl, pending, we)"
    and "close_text env (csv_path_of env out deck_name) pending we = (rc, w')"
    and "(\<exists>e. rl = Inl e) \<or> (\<exists>e. rc = Inl e)"
  shows "export_deck env deck_name out media w = (Inr 0, w') \<and>
         (note_ids \<noteq> [] \<longrightarrow> gui_export_deck env deck_name out media w = (Inr 0, w')) \<and>
         (\<exists>k rows bytes content.
            k \<le> length ns \<and>
            map (row_of env (media_subfolder_of env deck_name)) (take k ns) = map Some rows \<and>
            utf8_encode (concat (map csv_writerow rows)) = Some bytes \<and>
            files w' (csv_path_of env out deck_name) = Some content \<and>
            prefix content ((if 0 < k then BOM_UTF8 else []) @ bytes) \<and>
            (\<forall>u. rc = Inr u \<longrightarrow> content = (if 0 < k then BOM_UTF8 else []) @ bytes)) \<and>
         export_all (export_deck env) out media (deck_name # decks) tot w
           = export_all (export_deck env) out media decks tot w'"
proof -
  let ?sub = "media_subfolder_of env deck_name"
  let ?p = "csv_path_of env out deck_name"
  from assms(7) have zero:
    "(case rc of Inl e \<Rightarrow> Inr 0 | Inr u \<Rightarrow> (case rl of Inl e \<Rightarrow> Inr 0 | Inr c \<Rightarrow> Inr c))
       = (Inr 0 :: exn + nat)"
    by (auto split: sum.splits)
  have en: "export_notes env deck_name out media ns wb = (Inr 0, w')"
    using export_notes_run [OF assms(3,4,5,6)] zero by simp
  have ed: "export_deck env deck_name out media w = (Inr 0, w')"
    using assms(1,2) en by (simp add: export_deck_def)
  have gd: "gui_export_deck env deck_name out media w = (Inr 0, w')" if "note_ids \<noteq> []"
    using assms(1,2) en that by (simp add: gui_export_deck_def)
  from export_notes_file [OF assms(4,5,6)] obtain k bs content where
    k: "k \<le> length ns" and
    m: "map (note_bytes env ?sub) (take k ns) = map Some bs" and
    f: "files w' ?p = Some content" and
    pre: "prefix content ((if 0 < k then BOM_UTF8 else []) @ concat bs)" and
    all: "\<forall>u. rc = Inr u \<longrightarrow> content = (if 0 < k then BOM_UTF8 else []) @ concat bs"
    by blast
  from note_bytes_rows [OF m] obtain rows where
    "map (row_of env ?sub) (take k ns) = map Some rows"
    "utf8_encode (concat (map csv_writerow rows)) = Some (concat bs)"
    by blast
  with k f pre all have "\<exists>k rows bytes content.
            k \<le> length ns \<and>
            map (row_of env ?sub) (take k ns) = map Some rows \<and>
            utf8_encode (concat (map csv_writerow rows)) = Some bytes \<and>
            files w' ?p = Some content \<and>
            prefix content ((if 0 < k then BOM_UTF8 else []) @ bytes) \<and>
            (\<forall>u. rc = Inr u \<longrightarrow> content = (if 0 < k then BOM_UTF8 else []) @ bytes)"
    by blast
  with ed gd export_all_zero [of "export_deck env", OF ed] show ?thesis by blast
qed

theorem failed_export_leaves_partial_file_witness:
  "(\<exists>w'. export_deck broken_env (ustr ''Math::Algebra'') (ustr ''/out/decks'') (ustr ''/out/media'')
            demo_world = (Inr 0, w') \<and>
         gui_export_deck broken_env (ustr ''Math::Algebra'') (ustr ''/out/decks'') (ustr ''/out/media'')
            demo_world = (Inr 0, w') \<and>
         files w' (ustr ''/out/decks/math/algebra.csv'') = Some (BOM_UTF8 @ algebra_row1) \<and>
         export_all (export_deck broken_env) (ustr ''/out/decks'') (ustr ''/out/media'')
             [ustr ''Math::Algebra''] 7 demo_world = (Inr 7, w')) \<and>
   (\<exists>w'. export_deck small_disk_env (ustr ''Math::Algebra'') (ustr ''/out/decks'') (ustr ''/out/media'')
            demo_world = (Inr 0, w') \<and>
         files w' (ustr ''/out/decks/math/algebra.csv'')
           = Some (take 30 (BOM_UTF8 @ algebra_row1 @ algebra_row2)) \<and>
         export_all (export_deck small_disk_env) (ustr ''/out/decks'') (ustr ''/out/media'')
             [ustr ''Math::Algebra''] 7 demo_world = (Inr 7, w'))"
proof -
  let ?deck = "ustr ''Math::Algebra''"
  let ?out = "ustr ''/out/decks''"
  let ?media = "ustr ''/out/media''"
  let ?p = "ustr ''/out/decks/math/algebra.csv''"
  have sub: "media_subfolder_of broken_env ?deck = ustr ''algebra''"
    "media_subfolder_of small_disk_env ?deck = ustr ''algebra''"
    by (simp_all add: run_defs)
  have dir: "path_join ?out (fst (csv_names broken_env ?deck)) = ustr ''/out/decks/math''"
    "path_join ?out (fst (csv_names small_disk_env ?deck)) = ustr ''/out/decks/math''"
    by (simp_all add: run_defs)
  have p: "csv_path_of broken_env ?out ?deck = ?p" "csv_path_of small_disk_env ?out ?deck = ?p"
    by (simp_all add: run_defs)
  have "\<exists>wa wb wc wd pending we w'.
          request_findNotes broken_env (deck_query ?deck) demo_world = (Some [1, 2], wa) \<and>
          request_notesInfo broken_env [1, 2] wa
            = (Some [hd demo_notes, empty_note, last demo_notes], wb) \<and>
          makedirs broken_env (ustr ''/out/decks/math'') wb = (Inr (), wc) \<and>
          open_w broken_env ?p wc = (Inr (), wd) \<and>
          write_notes broken_env (ustr ''algebra'') ?media ?p True [] 0
            [hd demo_notes, empty_note, last demo_notes] wd = (Inl KeyError, pending, we) \<and>
          close_text broken_env ?p pending we = (Inr (), w') \<and>
          files w' ?p = Some (BOM_UTF8 @ algebra_row1)"
    by (simp add: run_defs)
  then obtain wa wb wc wd pending we w' where
    1: "request_findNotes broken_env (deck_query ?deck) demo_world = (Some [1, 2], wa)" and
    2: "request_notesInfo broken_env [1, 2] wa
          = (Some [hd demo_notes, empty_note, last demo_notes], wb)" and
    3: "makedirs broken_env (ustr ''/out/decks/math'') wb = (Inr (), wc)" and
    4: "open_w broken_env ?p wc = (Inr (), wd)" and
    5: "write_notes broken_env (ustr ''algebra'') ?media ?p True [] 0
          [hd demo_notes, empty_note, last demo_notes] wd = (Inl KeyError, pending, we)" and
    6: "close_text broken_env ?p pending we = (Inr (), w')" and
    content: "files w' ?p = Some (BOM_UTF8 @ algebra_row1)"
    by blast
  have 7: "(\<exists>e. (Inl KeyError :: exn + nat) = Inl e) \<or> (\<exists>e. (Inr () :: exn + unit) = Inl e)"
    by simp
  note result =
    failed_export_leaves_partial_file
      [where env = broken_env and deck_name = ?deck and out = ?out and media = ?media
         and decks = "[]" and tot = 7, unfolded sub dir p, OF 1 2 3 4 5 6 7]
  from result content have first:
    "\<exists>w'. export_deck broken_env ?deck ?out ?media demo_world = (Inr 0, w') \<and>
         gui_export_deck broken_env ?deck ?out ?media demo_world = (Inr 0, w') \<and>
         files w' ?p = Some (BOM_UTF8 @ algebra_row1) \<and>
         export_all (export_deck broken_env) ?out ?media [?deck] 7 demo_world = (Inr 7, w')"
    by simp
  have "\<exists>wa wb wc wd pending we w'.
          request_findNotes small_disk_env (deck_query ?deck) demo_world = (Some [1, 2], wa) \<and>
          request_notesInfo small_disk_env [1, 2] wa = (Some demo_notes, wb) \<and>
          makedirs small_disk_env (ustr ''/out/decks/math'') wb = (Inr (), wc) \<and>
          open_w small_disk_env ?p wc = (Inr (), wd) \<and>
          write_notes small_disk_env (ustr ''algebra'') ?media ?p True [] 0 demo_notes wd
            = (Inr 2, pending, we) \<and>
          close_text small_disk_env ?p pending we = (Inl OSError, w') \<and>
          files w' ?p = Some (take 30 (BOM_UTF8 @ algebra_row1 @ algebra_row2))"
    by (simp add: run_defs)
  then obtain va vb vc vd vpending ve v' where
    s1: "request_findNotes small_disk_env (deck_query ?deck) demo_world = (Some [1, 2], va)" and
    s2: "request_notesInfo small_disk_env [1, 2] va = (Some demo_notes, vb)" and
    s3: "makedirs small_disk_env (ustr ''/out/decks/math'') vb = (Inr (), vc)" and
    s4: "open_w small_disk_env ?p vc = (Inr (), vd)" and
    s5: "write_notes small_disk_env (ustr ''algebra'') ?media ?p True [] 0 demo_notes vd
           = (Inr 2, vpending, ve)" and
    s6: "close_text small_disk_env ?p vpending ve = (Inl OSError, v')" and
    torn: "files v' ?p = Some (take 30 (BOM_UTF8 @ algebra_row1 @ algebra_row2))"
    by blast
  have s7: "(\<exists>e. (Inr 2 :: exn + nat) = Inl e) \<or> (\<exists>e. (Inl OSError :: exn + unit) = Inl e)"
    by simp
  note result2 =
    failed_export_leaves_partial_file
      [where env = small_disk_env and deck_name = ?deck and out = ?out and media = ?media
         and decks = "[]" and tot = 7, unfolded sub dir p, OF s1 s2 s3 s4 s5 s6 s7]
  from result2 torn have second:
    "\<exists>w'. export_deck small_disk_env ?deck ?out ?media demo_world = (Inr 0, w') \<and>
         files w' ?p = Some (take 30 (BOM_UTF8 @ algebra_row1 @ algebra_row2)) \<and>
         export_all (export_deck small_disk_env) ?out ?media [?deck] 7 demo_world = (Inr 7, w')"
    by simp
  from first second show ?thesis by blast
qed




text \<open>
  C4. The code at the failing input: a regular file has the name of the category
  directory of the first deck. \<open>os.makedirs\<close> raises before the \<open>try\<close> of \<open>export_deck\<close>
  is entered, so \<open>export_deck\<close> raises instead of returning zero, in both programs, and
  the run ends there: the second deck is never asked for. The failure that the \<open>try\<close>
  does cover, a CSV file that cannot be opened, costs only that deck: the run goes on and
  counts the two notes of the second deck.
\<close>

theorem category_directory_failure_escapes:
  "fst (export_deck demo_env (ustr ''Math::Algebra'') (ustr ''/out/decks'') (ustr ''/out/media'')
          blocked_category_world) = Inl OSError \<and>
   fst (gui_export_deck demo_env (ustr ''Math::Algebra'') (ustr ''/out/decks'') (ustr ''/out/media'')
          blocked_category_world) = Inl OSError \<and>
   fst (main demo_env [ustr ''export.py'', ustr ''/out''] blocked_category_world) = Inl OSError \<and>
   calls (snd (main demo_env [ustr ''export.py'', ustr ''/out''] blocked_category_world))
     = [DeckNames, FindNotes (deck_query (ustr ''Math::Algebra'')), NotesInfo [1, 2]] \<and>
   fst (gui_do_export demo_env (ustr ''/out'') [ustr ''Math::Algebra'', ustr ''Vocabulary'']
          blocked_category_world) = Inl OSError \<and>
   fst (main demo_env [ustr ''export.py'', ustr ''/out''] blocked_csv_world) = Inr 2"
  by (simp add: run_defs)

end
